theory Spec2Isabelle
  imports Main "HOL-Library.Word"
begin

unbundle bit_operations_syntax

section \<open>Machine types, byte order and memory\<close>

text \<open>
  The sources are C.  Fixed-width unsigned integers are words, so that every
  truncation and wrap-around of the code is part of the model.  Pointers into
  a message buffer are byte offsets from its start, natural numbers.
\<close>

type_synonym u8 = "8 word"
type_synonym u16 = "16 word"
type_synonym u32 = "32 word"
type_synonym u64 = "64 word"

text \<open>
  A quantity of type \<open>size_t\<close> (a buffer size, a payload length) is the
  natural number it holds, at most \<open>SIZE_MAX\<close>; the type has 64 bits, as on
  the LP64 platforms the library is built for.  A sum computed in \<open>size_t\<close>
  wraps around: \<open>size_t n\<close> is the value that the type holds for the
  mathematical result \<open>n\<close>.
\<close>

definition SIZE_MAX :: nat where
  "SIZE_MAX = 2 ^ 64 - 1"

definition size_t :: "nat \<Rightarrow> nat" where
  "size_t n = n mod 2 ^ 64"

text \<open>
  The byte order of the host is not fixed by the sources; the functions that
  depend on it take it as their first argument.
\<close>

datatype endianness = Little_endian | Big_endian

definition bswap16 :: "u16 \<Rightarrow> u16" where
  "bswap16 x = push_bit 8 x OR drop_bit 8 x"

definition bswap32 :: "u32 \<Rightarrow> u32" where
  "bswap32 x =
     push_bit 24 x OR (push_bit 8 x AND 0xff0000) OR (drop_bit 8 x AND 0xff00) OR drop_bit 24 x"

definition htons :: "endianness \<Rightarrow> u16 \<Rightarrow> u16" where
  "htons e x = (case e of Big_endian \<Rightarrow> x | Little_endian \<Rightarrow> bswap16 x)"

definition ntohs :: "endianness \<Rightarrow> u16 \<Rightarrow> u16" where
  "ntohs e x = (case e of Big_endian \<Rightarrow> x | Little_endian \<Rightarrow> bswap16 x)"

definition htonl :: "endianness \<Rightarrow> u32 \<Rightarrow> u32" where
  "htonl e x = (case e of Big_endian \<Rightarrow> x | Little_endian \<Rightarrow> bswap32 x)"

definition ntohl :: "endianness \<Rightarrow> u32 \<Rightarrow> u32" where
  "ntohl e x = (case e of Big_endian \<Rightarrow> x | Little_endian \<Rightarrow> bswap32 x)"

text \<open>
  A C function with assertions either aborts the process at a failed
  assertion or returns.
\<close>

datatype 'a outcome = Assert_failed | Returns 'a

fun and_then :: "'a outcome \<Rightarrow> ('a \<Rightarrow> 'b outcome) \<Rightarrow> 'b outcome" where
  "and_then Assert_failed k = Assert_failed"
| "and_then (Returns x) k = k x"

section \<open>address/address.c\<close>

text \<open>
  Modelled from the spec: \<open>NiceAddress\<close> and \<open>NiceAddressType\<close> are declared
  in address.h, which is not among the sources.  The spec (section 3) gives a
  tag with the variants IPv4 and IPv6, a 32-bit host-order IPv4 address, a
  128-bit IPv6 address stored in network byte order and a 16-bit host-order
  port.  \<open>NICE_ADDRESS_TYPE_UNSET\<close> stands for every other value of the tag
  (the spec's "type unset"), on which the code asserts.  The two address
  payloads are separate fields here; no function below reads the payload of
  the variant that is not the active one.
\<close>

datatype NiceAddressType =
  NICE_ADDRESS_TYPE_IPV4 | NICE_ADDRESS_TYPE_IPV6 | NICE_ADDRESS_TYPE_UNSET

record NiceAddress =
  type :: NiceAddressType
  addr_ipv4 :: u32
  addr_ipv6 :: "u8 list"
  port :: u16

text \<open>
  The socket-address storage of the operating system, as the code reads and
  writes it through its \<open>sockaddr_in\<close> and \<open>sockaddr_in6\<close> views: the family
  and the port lie at the same place in both views, \<open>sin_addr\<close> and
  \<open>sin6_addr\<close> do not overlap.  The constants are those of the platform's
  headers (Linux values); the proofs use only that the two families differ.
\<close>

record sockaddr =
  sa_family :: u16
  sin_port :: u16
  sin_addr :: u32
  sin6_addr :: "u8 list"

definition AF_INET :: u16 where
  "AF_INET = 2"

definition AF_INET6 :: u16 where
  "AF_INET6 = 10"

definition INET_ADDRSTRLEN :: nat where
  "INET_ADDRSTRLEN = 16"

definition sizeof_addr_ipv6 :: nat where
  "sizeof_addr_ipv6 = 16"

definition nice_address_set_ipv4 :: "NiceAddress \<Rightarrow> u32 \<Rightarrow> NiceAddress" where
  "nice_address_set_ipv4 addr a =
     addr\<lparr>type := NICE_ADDRESS_TYPE_IPV4, addr_ipv4 := a\<rparr>"

definition nice_address_set_ipv6 :: "NiceAddress \<Rightarrow> u8 list \<Rightarrow> NiceAddress" where
  "nice_address_set_ipv6 addr a =
     addr\<lparr>type := NICE_ADDRESS_TYPE_IPV6, addr_ipv6 := take sizeof_addr_ipv6 a\<rparr>"

text \<open>
  \<open>inet_aton\<close> is a function of the C library.  It is modelled after its
  manual page (inet(3)) and the GNU implementation: the text up to the first
  white-space character is one to four numbers with a dot between them,
  each written as in C (hexadecimal after \<open>0x\<close> or \<open>0X\<close>, octal after a
  leading \<open>0\<close>, decimal otherwise); every number but the last is one byte of
  the address, at most 255, and the last one fills the bytes that remain.
  \<open>inet_aton_value\<close> is the address as a number, \<open>None\<close> where the C
  function returns 0; \<open>inet_aton\<close> is what it stores in \<open>in_addr.s_addr\<close>,
  in network byte order.
\<close>

definition isdigit :: "char \<Rightarrow> bool" where
  "isdigit c = (48 \<le> (of_char c :: nat) \<and> (of_char c :: nat) \<le> 57)"




definition digit_value :: "char \<Rightarrow> nat" where
  "digit_value c =
     (if isdigit c then of_char c - 48
      else if 97 \<le> (of_char c :: nat) then of_char c - 87
      else of_char c - 55)"

definition number_of_digits :: "nat \<Rightarrow> string \<Rightarrow> nat" where
  "number_of_digits base ds = foldl (\<lambda>v c. v * base + digit_value c) 0 ds"


fun split_dots :: "string \<Rightarrow> string list" where
  "split_dots [] = [[]]"
| "split_dots (c # cs) =
     (if c = CHR ''.'' then [] # split_dots cs
      else (case split_dots cs of [] \<Rightarrow> [[c]] | p # ps \<Rightarrow> (c # p) # ps))"




definition nice_address_set_from_sockaddr ::
  "endianness \<Rightarrow> NiceAddress \<Rightarrow> sockaddr \<Rightarrow> NiceAddress outcome" where
  "nice_address_set_from_sockaddr e addr sin =
     and_then
       (if sa_family sin = AF_INET then
          Returns (nice_address_set_ipv4 (addr\<lparr>type := NICE_ADDRESS_TYPE_IPV4\<rparr>)
                     (ntohl e (sin_addr sin)))
        else if sa_family sin = AF_INET6 then
          Returns (nice_address_set_ipv6 (addr\<lparr>type := NICE_ADDRESS_TYPE_IPV6\<rparr>)
                     (sin6_addr sin))
        else Assert_failed)
       (\<lambda>addr. Returns (addr\<lparr>port := ntohs e (sin_port sin)\<rparr>))"

definition nice_address_copy_to_sockaddr ::
  "endianness \<Rightarrow> NiceAddress \<Rightarrow> sockaddr \<Rightarrow> sockaddr outcome" where
  "nice_address_copy_to_sockaddr e addr sin =
     and_then
       (if type addr = NICE_ADDRESS_TYPE_IPV4 then
          Returns (sin\<lparr>sa_family := AF_INET, sin_addr := htonl e (addr_ipv4 addr)\<rparr>)
        else if type addr = NICE_ADDRESS_TYPE_IPV6 then
          Returns (sin\<lparr>sa_family := AF_INET6,
                         sin6_addr := take sizeof_addr_ipv6 (addr_ipv6 addr)\<rparr>)
        else Assert_failed)
       (\<lambda>sin. Returns (sin\<lparr>sin_port := htons e (port addr)\<rparr>))"

definition nice_address_equal :: "NiceAddress \<Rightarrow> NiceAddress \<Rightarrow> bool outcome" where
  "nice_address_equal a b =
     (if type a \<noteq> type b then Returns False
      else if type a = NICE_ADDRESS_TYPE_IPV4 then
        Returns (addr_ipv4 a = addr_ipv4 b \<and> port a = port b)
      else if type a = NICE_ADDRESS_TYPE_IPV6 then
        Returns (take INET_ADDRSTRLEN (addr_ipv6 a) = take INET_ADDRSTRLEN (addr_ipv6 b)
                 \<and> port a = port b)
      else Assert_failed)"

section \<open>Buffers and C strings\<close>

text \<open>
  A \<open>uint8_t *\<close> is modelled by the memory it points to, a function from the
  byte offset to the byte; as in C, nothing bounds the offsets but the checks
  of the code itself.  A pointer into the buffer is an offset, \<open>None\<close> is
  the null pointer.  A source region given by a pointer and a byte count is
  the list of its bytes together with the count.
\<close>

type_synonym buffer = "nat \<Rightarrow> u8"

fun store_bytes :: "buffer \<Rightarrow> nat \<Rightarrow> u8 list \<Rightarrow> buffer" where
  "store_bytes m p [] = m"
| "store_bytes m p (b # bs) = store_bytes (m(p := b)) (Suc p) bs"

definition load_bytes :: "buffer \<Rightarrow> nat \<Rightarrow> nat \<Rightarrow> u8 list" where
  "load_bytes m p n = map m [p..<p + n]"

definition memset :: "buffer \<Rightarrow> nat \<Rightarrow> u8 \<Rightarrow> nat \<Rightarrow> buffer" where
  "memset m p c n = store_bytes m p (replicate n c)"

definition memcpy :: "buffer \<Rightarrow> nat \<Rightarrow> u8 list \<Rightarrow> nat \<Rightarrow> buffer" where
  "memcpy m p src n = store_bytes m p (take n src)"

text \<open>
  A C string is the list of its characters before the terminating NUL.
\<close>

definition byte_of_char :: "char \<Rightarrow> u8" where
  "byte_of_char c = of_nat (of_char c)"

definition string_bytes :: "string \<Rightarrow> u8 list" where
  "string_bytes s = map byte_of_char s"

definition strlen :: "string \<Rightarrow> nat" where
  "strlen s = length s"

text \<open>
  The object representation of an integer: the bytes that \<open>memcpy\<close> reads
  from its address, least significant byte first on a little-endian host.
\<close>

definition le_bytes :: "'a::len word \<Rightarrow> nat \<Rightarrow> u8 list" where
  "le_bytes x n = map (\<lambda>i. ucast (drop_bit (8 * i) x)) [0..<n]"

definition be_bytes :: "'a::len word \<Rightarrow> nat \<Rightarrow> u8 list" where
  "be_bytes x n = rev (le_bytes x n)"

definition object_bytes :: "endianness \<Rightarrow> 'a::len word \<Rightarrow> nat \<Rightarrow> u8 list" where
  "object_bytes e x n = (case e of Little_endian \<Rightarrow> le_bytes x n | Big_endian \<Rightarrow> be_bytes x n)"

section \<open>stun/stun-msg.h\<close>

text \<open>
  Modelled from the spec: stun-msg.h, which declares the accessors and the
  constants that stunsend.c and hmac.c use, is not among the sources.
  The message length is the big-endian 16-bit field at bytes 2 and 3 of the
  header (spec, section 3); \<open>stun_padding\<close> is the spec's \<open>pad_len\<close>
  (section 4.2); the class and the method are read back from the two type
  bytes by the bit layout of section 4.5; the transaction identifier is bytes
  8 to 19.  The classes are numbered as in section 4.5 and the error codes as
  in section 4.6.
\<close>

definition stun_getw :: "buffer \<Rightarrow> nat \<Rightarrow> u16" where
  "stun_getw m p = push_bit 8 (ucast (m p)) OR ucast (m (p + 1))"

definition stun_length :: "buffer \<Rightarrow> u16" where
  "stun_length msg = stun_getw msg 2"

definition stun_padding :: "nat \<Rightarrow> nat" where
  "stun_padding l = (4 - l mod 4) mod 4"

definition stun_get_class :: "buffer \<Rightarrow> nat" where
  "stun_get_class msg =
     (let t = stun_getw msg 0
      in unat (drop_bit 7 (t AND 0x0100) OR drop_bit 4 (t AND 0x0010)))"

definition stun_get_method :: "buffer \<Rightarrow> nat" where
  "stun_get_method msg =
     (let t = stun_getw msg 0
      in unat (drop_bit 2 (t AND 0x3e00) OR drop_bit 1 (t AND 0x00e0) OR (t AND 0x000f)))"

definition stun_id :: "buffer \<Rightarrow> u8 list" where
  "stun_id msg = load_bytes msg 8 12"

definition STUN_REQUEST :: nat where
  "STUN_REQUEST = 0"

definition STUN_INDICATION :: nat where
  "STUN_INDICATION = 1"

definition STUN_RESPONSE :: nat where
  "STUN_RESPONSE = 2"

definition STUN_ERROR :: nat where
  "STUN_ERROR = 3"

definition STUN_TRY_ALTERNATE :: int where
  "STUN_TRY_ALTERNATE = 300"

definition STUN_BAD_REQUEST :: int where
  "STUN_BAD_REQUEST = 400"

definition STUN_UNAUTHORIZED :: int where
  "STUN_UNAUTHORIZED = 401"

definition STUN_UNKNOWN_ATTRIBUTE :: int where
  "STUN_UNKNOWN_ATTRIBUTE = 420"

definition STUN_STALE_CREDENTIALS :: int where
  "STUN_STALE_CREDENTIALS = 430"

definition STUN_INTEGRITY_CHECK_FAILURE :: int where
  "STUN_INTEGRITY_CHECK_FAILURE = 431"

definition STUN_MISSING_USERNAME :: int where
  "STUN_MISSING_USERNAME = 432"

definition STUN_USE_TLS :: int where
  "STUN_USE_TLS = 433"

definition STUN_MISSING_REALM :: int where
  "STUN_MISSING_REALM = 434"

definition STUN_MISSING_NONCE :: int where
  "STUN_MISSING_NONCE = 435"

definition STUN_UNKNOWN_USERNAME :: int where
  "STUN_UNKNOWN_USERNAME = 436"

definition STUN_STALE_NONCE :: int where
  "STUN_STALE_NONCE = 438"

definition STUN_ROLE_CONFLICT :: int where
  "STUN_ROLE_CONFLICT = 487"

definition STUN_SERVER_ERROR :: int where
  "STUN_SERVER_ERROR = 500"

definition STUN_GLOBAL_FAILURE :: int where
  "STUN_GLOBAL_FAILURE = 600"

text \<open>
  The spec names the attribute types without their numbers (section 6); the
  numbers below are those of RFC 5389, which the spec follows.  No proof
  unfolds them.  \<open>STUN_MAXMSG\<close>, the other constant of the header, is a
  parameter (\<open>maxmsg\<close>) of every function that depends on it.
\<close>

definition STUN_USERNAME :: u16 where
  "STUN_USERNAME = 0x0006"

definition STUN_MESSAGE_INTEGRITY :: u16 where
  "STUN_MESSAGE_INTEGRITY = 0x0008"

definition STUN_ERROR_CODE :: u16 where
  "STUN_ERROR_CODE = 0x0009"

definition STUN_REALM :: u16 where
  "STUN_REALM = 0x0014"

definition STUN_NONCE :: u16 where
  "STUN_NONCE = 0x0015"

definition STUN_FINGERPRINT :: u16 where
  "STUN_FINGERPRINT = 0x8028"

section \<open>stun/stunsend.c\<close>

text \<open>
  The value an \<open>int\<close>-returning function of the file returns: 0
  (\<open>Success\<close>) or one of three error numbers.
\<close>

datatype retval = Success | ENOBUFS | EINVAL | EAFNOSUPPORT

definition stun_setw :: "buffer \<Rightarrow> nat \<Rightarrow> u16 \<Rightarrow> buffer \<times> nat" where
  "stun_setw m ptr v =
     (m(ptr := ucast (drop_bit 8 v), ptr + 1 := ucast (v AND 0xff)), ptr + 2)"

definition stun_set_type :: "buffer \<Rightarrow> nat \<Rightarrow> nat \<Rightarrow> buffer outcome" where
  "stun_set_type h c m =
     (if \<not> c < 4 then Assert_failed
      else if \<not> m < 2 ^ 12 then Assert_failed
      else
        let h = h(0 := of_nat (drop_bit 1 c OR (drop_bit 6 m AND 0x3e)));
            h = h(1 := of_nat ((push_bit 4 c AND 0x10) OR (push_bit 1 m AND 0xe0) OR (m AND 0x0f)))
        in if \<not> unat (stun_getw h 0) < 2 ^ 14 then Assert_failed
           else if \<not> stun_get_class h = c then Assert_failed
           else if \<not> stun_get_method h = m then Assert_failed
           else Returns h)"

text \<open>
  The static store of \<open>stun_make_transid\<close>: the counter (the mutex makes
  the read and the increment one step, as here).  The function returns the
  identifier it writes and the store it leaves.
\<close>

record transid_store =
  counter :: u64

definition initial_store :: transid_store where
  "initial_store = \<lparr>counter = 0\<rparr>"

definition stun_make_transid :: "endianness \<Rightarrow> transid_store \<Rightarrow> u8 list \<times> transid_store" where
  "stun_make_transid e store =
     (let c = counter store;
          store = store\<lparr>counter := counter store + 1\<rparr>;
          ident = replicate 4 0 @ take 8 (object_bytes e c 8)
      in (ident, store))"

text \<open>
  In \<open>stun_init\<close> the identifier is copied unless it already lies at its
  place in the message (\<open>ans == req\<close>); copying it there again leaves the same
  bytes, so the model always copies.
\<close>

definition stun_init :: "buffer \<Rightarrow> nat \<Rightarrow> nat \<Rightarrow> u8 list \<Rightarrow> buffer outcome" where
  "stun_init msg c m ident =
     (let msg = memcpy msg 0 [0, 0, 0, 0, 0x21, 0x12, 0xA4, 0x42] 8
      in and_then (stun_set_type msg c m) (\<lambda>msg. Returns (memcpy msg 8 ident 12)))"

definition stun_init_request ::
  "endianness \<Rightarrow> transid_store \<Rightarrow> buffer \<Rightarrow> nat \<Rightarrow> buffer outcome \<times> transid_store" where
  "stun_init_request e store req m =
     (let (ident, store) = stun_make_transid e store
      in (stun_init req STUN_REQUEST m ident, store))"

definition stun_init_response :: "buffer \<Rightarrow> buffer \<Rightarrow> buffer outcome" where
  "stun_init_response ans req =
     (if \<not> stun_get_class req = STUN_REQUEST then Assert_failed
      else stun_init ans STUN_RESPONSE (stun_get_method req) (stun_id req))"

text \<open>
  \<open>stun_append\<close> returns the buffer and the pointer to the payload slot, or
  the null pointer with the buffer as it was.  The sum of its room check is
  computed in \<open>size_t\<close>: for a length near \<open>SIZE_MAX\<close> it wraps around, and
  the call goes on to the assertion on the length.
\<close>

definition stun_append ::
  "nat \<Rightarrow> buffer \<Rightarrow> nat \<Rightarrow> u16 \<Rightarrow> nat \<Rightarrow> (buffer \<times> nat option) outcome" where
  "stun_append maxmsg msg msize atype len =
     (let mlen = stun_length msg
      in if \<not> stun_padding (unat mlen) = 0 then Assert_failed
         else
           let msize = (if msize > maxmsg then maxmsg else msize)
           in if size_t (unat mlen + 24 + len) > msize then Returns (msg, None)
              else if \<not> len < 0xffff then Assert_failed
              else
                let a = 20 + unat mlen;
                    (msg, a) = stun_setw msg a atype;
                    (msg, a) = stun_setw msg a (of_nat len);
                    mlen = mlen + of_nat (4 + len);
                    msg = memset msg (a + len) 0x20 (stun_padding len);
                    mlen = mlen + of_nat (stun_padding len);
                    (msg, _) = stun_setw msg 2 mlen
                in Returns (msg, Some a))"

definition stun_append_bytes ::
  "nat \<Rightarrow> buffer \<Rightarrow> nat \<Rightarrow> u16 \<Rightarrow> u8 list \<Rightarrow> nat \<Rightarrow> (retval \<times> buffer) outcome" where
  "stun_append_bytes maxmsg msg msize atype data len =
     and_then (stun_append maxmsg msg msize atype len)
       (\<lambda>(msg, ptr).
          case ptr of
            None \<Rightarrow> Returns (ENOBUFS, msg)
          | Some ptr \<Rightarrow> Returns (Success, memcpy msg ptr data len))"

definition stun_append_flag :: "nat \<Rightarrow> buffer \<Rightarrow> nat \<Rightarrow> u16 \<Rightarrow> (retval \<times> buffer) outcome" where
  "stun_append_flag maxmsg msg msize atype = stun_append_bytes maxmsg msg msize atype [] 0"

definition stun_append32 ::
  "endianness \<Rightarrow> nat \<Rightarrow> buffer \<Rightarrow> nat \<Rightarrow> u16 \<Rightarrow> u32 \<Rightarrow> (retval \<times> buffer) outcome" where
  "stun_append32 e maxmsg msg msize atype v =
     (let v = htonl e v
      in stun_append_bytes maxmsg msg msize atype (object_bytes e v 4) 4)"

definition stun_append64 ::
  "endianness \<Rightarrow> nat \<Rightarrow> buffer \<Rightarrow> nat \<Rightarrow> u16 \<Rightarrow> u64 \<Rightarrow> (retval \<times> buffer) outcome" where
  "stun_append64 e maxmsg msg msize atype v =
     (let tab0 = htonl e (ucast (drop_bit 32 v));
          tab1 = htonl e (ucast v)
      in stun_append_bytes maxmsg msg msize atype
           (object_bytes e tab0 4 @ object_bytes e tab1 4) 8)"

definition stun_append_string ::
  "nat \<Rightarrow> buffer \<Rightarrow> nat \<Rightarrow> u16 \<Rightarrow> string \<Rightarrow> (retval \<times> buffer) outcome" where
  "stun_append_string maxmsg msg msize atype str =
     stun_append_bytes maxmsg msg msize atype (string_bytes str) (strlen str)"

text \<open>
  The table of \<open>stun_strerror\<close> with its closing entry, and the loop over it,
  which stops at the first entry whose phrase is empty.
\<close>

definition stun_strerror_tab :: "(int \<times> string) list" where
  "stun_strerror_tab =
     [(STUN_TRY_ALTERNATE, ''Try alternate server''),
      (STUN_BAD_REQUEST, ''Bad request''),
      (STUN_UNAUTHORIZED, ''Authorization required''),
      (STUN_UNKNOWN_ATTRIBUTE, ''Unknown attribute''),
      (STUN_STALE_CREDENTIALS, ''Authentication expired''),
      (STUN_INTEGRITY_CHECK_FAILURE, ''Incorrect username/password''),
      (STUN_MISSING_USERNAME, ''Username required''),
      (STUN_USE_TLS, ''Secure connection required''),
      (STUN_MISSING_REALM, ''Authentication domain required''),
      (STUN_MISSING_NONCE, ''Authentication token missing''),
      (STUN_UNKNOWN_USERNAME, ''Unknown user name''),
      (STUN_STALE_NONCE, ''Authentication token expired''),
      (STUN_ROLE_CONFLICT, ''Role conflict''),
      (STUN_SERVER_ERROR, ''Temporary server error''),
      (STUN_GLOBAL_FAILURE, ''Unrecoverable failure''),
      (0, [])]"

fun stun_strerror_loop :: "(int \<times> string) list \<Rightarrow> int \<Rightarrow> string" where
  "stun_strerror_loop [] code = ''Unknown error''"
| "stun_strerror_loop ((c, phrase) # tab) code =
     (if phrase = [] then ''Unknown error''
      else if c = code then phrase
      else stun_strerror_loop tab code)"

definition stun_strerror :: "int \<Rightarrow> string" where
  "stun_strerror code = stun_strerror_loop stun_strerror_tab code"

text \<open>
  \<open>div\<close> of the C library: the quotient truncated towards zero, and the
  remainder that goes with it.
\<close>

definition div_quot :: "int \<Rightarrow> int \<Rightarrow> int" where
  "div_quot a b = sgn a * sgn b * (\<bar>a\<bar> div \<bar>b\<bar>)"

definition div_rem :: "int \<Rightarrow> int \<Rightarrow> int" where
  "div_rem a b = a - b * div_quot a b"

definition stun_append_error :: "nat \<Rightarrow> buffer \<Rightarrow> nat \<Rightarrow> int \<Rightarrow> (retval \<times> buffer) outcome" where
  "stun_append_error maxmsg msg msize code =
     (let str = stun_strerror code;
          len = strlen str;
          d_quot = div_quot code 100;
          d_rem = div_rem code 100
      in and_then (stun_append maxmsg msg msize STUN_ERROR_CODE (4 + len))
           (\<lambda>(msg, ptr).
              case ptr of
                None \<Rightarrow> Returns (ENOBUFS, msg)
              | Some ptr \<Rightarrow>
                  let msg = memset msg ptr 0 2
                  in if \<not> d_quot \<le> 0x7 then Assert_failed
                     else
                       let msg = msg(ptr + 2 := of_int d_quot);
                           msg = msg(ptr + 3 := of_int d_rem);
                           msg = memcpy msg (ptr + 4) (string_bytes str) len
                       in Returns (Success, msg)))"

definition stun_init_error ::
  "nat \<Rightarrow> buffer \<Rightarrow> nat \<Rightarrow> buffer \<Rightarrow> int \<Rightarrow> (retval \<times> buffer) outcome" where
  "stun_init_error maxmsg ans msize req err =
     and_then (stun_init ans STUN_ERROR (stun_get_method req) (stun_id req))
       (\<lambda>ans. stun_append_error maxmsg ans msize err)"

text \<open>
  The sizes of the socket-address structures are the platform's (Linux
  values).
\<close>

definition sizeof_sockaddr :: nat where
  "sizeof_sockaddr = 16"

definition sizeof_sockaddr_in :: nat where
  "sizeof_sockaddr_in = 16"

definition sizeof_sockaddr_in6 :: nat where
  "sizeof_sockaddr_in6 = 28"

definition stun_append_addr ::
  "endianness \<Rightarrow> nat \<Rightarrow> buffer \<Rightarrow> nat \<Rightarrow> u16 \<Rightarrow> sockaddr \<Rightarrow> nat \<Rightarrow> (retval \<times> buffer) outcome" where
  "stun_append_addr e maxmsg msg msize atype addr addrlen =
     (if addrlen < sizeof_sockaddr then Returns (EINVAL, msg)
      else
        and_then
          (if sa_family addr = AF_INET then
             (if \<not> addrlen \<ge> sizeof_sockaddr_in then Assert_failed
              else Returns (Inr (1 :: u8, sin_port addr, 4 :: nat,
                                 object_bytes e (sin_addr addr) 4)))
           else if sa_family addr = AF_INET6 then
             (if addrlen < sizeof_sockaddr_in6 then Returns (Inl EINVAL)
              else Returns (Inr (2, sin_port addr, 16, sin6_addr addr)))
           else Returns (Inl EAFNOSUPPORT))
          (\<lambda>sel.
             case sel of
               Inl err \<Rightarrow> Returns (err, msg)
             | Inr (family, nport, alen, pa) \<Rightarrow>
                 and_then (stun_append maxmsg msg msize atype (4 + alen))
                   (\<lambda>(msg, ptr).
                      case ptr of
                        None \<Rightarrow> Returns (ENOBUFS, msg)
                      | Some ptr \<Rightarrow>
                          let msg = msg(ptr := 0);
                              msg = msg(ptr + 1 := family);
                              msg = memcpy msg (ptr + 2) (object_bytes e nport 2) 2;
                              msg = memcpy msg (ptr + 4) pa alen
                          in Returns (Success, msg))))"

text \<open>
  \<open>stun_xor_address\<close> belongs to the message parser, which is not among the
  sources: it is a parameter, a function from the message, the address and
  its length to the returned value and the address it leaves.
\<close>

definition stun_append_xor_addr ::
  "endianness \<Rightarrow> nat \<Rightarrow> (buffer \<Rightarrow> sockaddr \<Rightarrow> nat \<Rightarrow> retval \<times> sockaddr) \<Rightarrow>
   buffer \<Rightarrow> nat \<Rightarrow> u16 \<Rightarrow> sockaddr \<Rightarrow> nat \<Rightarrow> (retval \<times> buffer) outcome" where
  "stun_append_xor_addr e maxmsg stun_xor_address msg msize atype addr addrlen =
     (let xor_addr = addr;
          (val, xor_addr) = stun_xor_address msg xor_addr addrlen
      in if val \<noteq> Success then Returns (val, msg)
         else stun_append_addr e maxmsg msg msize atype xor_addr addrlen)"

section \<open>stun/hmac.c\<close>

text \<open>
  \<open>HMAC\<close> with \<open>EVP_sha1\<close> belongs to OpenSSL: it is a parameter, a function
  from the key and the data to the digest, of which the 20 bytes of a SHA-1
  digest are written to \<open>sha\<close>.  \<open>stun_sha1_data\<close> is the region the code
  passes as the data (\<open>msg\<close>, \<open>mlen\<close>); \<open>stun_sha1\<close> returns the bytes
  written to \<open>sha\<close>.
\<close>

definition SHA_DIGEST_LENGTH :: nat where
  "SHA_DIGEST_LENGTH = 20"

definition stun_sha1_data :: "buffer \<Rightarrow> u8 list" where
  "stun_sha1_data msg =
     (let mlen = unat (stun_length msg); mlen = mlen - 12 in load_bytes msg 0 mlen)"

definition stun_sha1 ::
  "(u8 list \<Rightarrow> u8 list \<Rightarrow> u8 list) \<Rightarrow> buffer \<Rightarrow> u8 list \<Rightarrow> nat \<Rightarrow> u8 list outcome" where
  "stun_sha1 HMAC_sha1 msg key keylen =
     (let mlen = unat (stun_length msg)
      in if \<not> mlen \<ge> 32 then Assert_failed
         else Returns (take SHA_DIGEST_LENGTH (HMAC_sha1 (take keylen key) (stun_sha1_data msg))))"

section \<open>stun/stunsend.c: finishing a message\<close>

text \<open>
  \<open>stun_fingerprint\<close> belongs to the message parser: it is a parameter, a
  function from the message to the 32-bit fingerprint.  \<open>stun_finish_long\<close>
  returns the value, the buffer and the content of \<open>*plen\<close>.
\<close>

definition stun_finish_long ::
  "endianness \<Rightarrow> nat \<Rightarrow> (u8 list \<Rightarrow> u8 list \<Rightarrow> u8 list) \<Rightarrow> (buffer \<Rightarrow> u32) \<Rightarrow>
   buffer \<Rightarrow> nat \<Rightarrow> string option \<Rightarrow> string option \<Rightarrow> u8 list option \<Rightarrow> nat \<Rightarrow>
   u8 list option \<Rightarrow> nat \<Rightarrow> (retval \<times> buffer \<times> nat) outcome" where
  "stun_finish_long e maxmsg HMAC_sha1 stun_fingerprint msg plen realm username
     key keylen nonce noncelen =
     (let len = plen
      in and_then
           (case realm of
              None \<Rightarrow> Returns (Success, msg)
            | Some realm \<Rightarrow> stun_append_string maxmsg msg len STUN_REALM realm)
       (\<lambda>(val, msg).
          if val \<noteq> Success then Returns (val, msg, plen)
          else and_then
           (case username of
              None \<Rightarrow> Returns (Success, msg)
            | Some username \<Rightarrow> stun_append_string maxmsg msg len STUN_USERNAME username)
       (\<lambda>(val, msg).
          if val \<noteq> Success then Returns (val, msg, plen)
          else and_then
           (case nonce of
              None \<Rightarrow> Returns (Success, msg)
            | Some nonce \<Rightarrow> stun_append_bytes maxmsg msg len STUN_NONCE nonce noncelen)
       (\<lambda>(val, msg).
          if val \<noteq> Success then Returns (val, msg, plen)
          else and_then
           (case key of
              None \<Rightarrow> Returns (msg, None)
            | Some _ \<Rightarrow> stun_append maxmsg msg len STUN_MESSAGE_INTEGRITY 20)
       (\<lambda>(msg, sha).
          if key \<noteq> None \<and> sha = None then Returns (ENOBUFS, msg, plen)
          else and_then (stun_append maxmsg msg len STUN_FINGERPRINT 4)
       (\<lambda>(msg, crc).
          case crc of
            None \<Rightarrow> Returns (ENOBUFS, msg, plen)
          | Some crc \<Rightarrow>
              and_then
                (case (sha, key) of
                   (Some sha, Some key) \<Rightarrow>
                     and_then (stun_sha1 HMAC_sha1 msg key keylen)
                       (\<lambda>digest. Returns (memcpy msg sha digest SHA_DIGEST_LENGTH))
                 | _ \<Rightarrow> Returns msg)
                (\<lambda>msg.
                   let fpr = htonl e (stun_fingerprint msg);
                       msg = memcpy msg crc (object_bytes e fpr 4) 4
                   in Returns (Success, msg, 20 + unat (stun_length msg)))))))))"

definition stun_finish_short ::
  "endianness \<Rightarrow> nat \<Rightarrow> (u8 list \<Rightarrow> u8 list \<Rightarrow> u8 list) \<Rightarrow> (buffer \<Rightarrow> u32) \<Rightarrow>
   buffer \<Rightarrow> nat \<Rightarrow> string option \<Rightarrow> string option \<Rightarrow> u8 list option \<Rightarrow> nat \<Rightarrow>
   (retval \<times> buffer \<times> nat) outcome" where
  "stun_finish_short e maxmsg HMAC_sha1 stun_fingerprint msg plen username password
     nonce noncelen =
     (let passlen = (case password of Some p \<Rightarrow> strlen p | None \<Rightarrow> 0)
      in stun_finish_long e maxmsg HMAC_sha1 stun_fingerprint msg plen None username
           (map_option string_bytes password) passlen nonce noncelen)"

definition stun_finish ::
  "endianness \<Rightarrow> nat \<Rightarrow> (u8 list \<Rightarrow> u8 list \<Rightarrow> u8 list) \<Rightarrow> (buffer \<Rightarrow> u32) \<Rightarrow>
   buffer \<Rightarrow> nat \<Rightarrow> (retval \<times> buffer \<times> nat) outcome" where
  "stun_finish e maxmsg HMAC_sha1 stun_fingerprint msg plen =
     stun_finish_short e maxmsg HMAC_sha1 stun_fingerprint msg plen None None None 0"

section \<open>Notions of the properties\<close>

text \<open>
  The effect of an appender on the length field of the header, in the words
  of the properties below: a call with a payload of \<open>n\<close> bytes returns, and
  either it succeeds and the length field has advanced by
  \<open>4 + n + stun_padding n\<close> to a multiple of 4, or it returns one of the
  errors \<open>errs\<close> and the length field is what it was.  \<open>reserve_effect\<close> is
  the same for \<open>stun_append\<close>, whose failure is the null pointer.
\<close>

definition append_effect ::
  "buffer \<Rightarrow> nat \<Rightarrow> retval set \<Rightarrow> (retval \<times> buffer) outcome \<Rightarrow> bool" where
  "append_effect msg n errs res =
     (case res of
        Assert_failed \<Rightarrow> False
      | Returns (r, msg') \<Rightarrow>
          if r = Success then
            unat (stun_length msg') = unat (stun_length msg) + 4 + n + stun_padding n \<and>
            unat (stun_length msg') mod 4 = 0
          else r \<in> errs \<and> stun_length msg' = stun_length msg)"

definition reserve_effect :: "buffer \<Rightarrow> nat \<Rightarrow> (buffer \<times> nat option) outcome \<Rightarrow> bool" where
  "reserve_effect msg n res =
     (case res of
        Assert_failed \<Rightarrow> False
      | Returns (msg', None) \<Rightarrow> stun_length msg' = stun_length msg
      | Returns (msg', Some p) \<Rightarrow>
          unat (stun_length msg') = unat (stun_length msg) + 4 + n + stun_padding n \<and>
          unat (stun_length msg') mod 4 = 0)"

text \<open>
  A valid dotted-quad, in the words of the spec: four decimal numbers from 0
  to 255 with a dot between them, each written without a superfluous zero
  in front; and the 32-bit value that it denotes.
\<close>

definition decimal_octet :: "string \<Rightarrow> bool" where
  "decimal_octet p =
     (p \<noteq> [] \<and> list_all isdigit p \<and> (hd p = CHR ''0'' \<longrightarrow> p = ''0'') \<and>
      number_of_digits 10 p \<le> 255)"

definition dotted_quad :: "string \<Rightarrow> bool" where
  "dotted_quad s =
     (case split_dots s of
        [a, b, c, d] \<Rightarrow> decimal_octet a \<and> decimal_octet b \<and> decimal_octet c \<and> decimal_octet d
      | _ \<Rightarrow> False)"

definition dotted_quad_value :: "string \<Rightarrow> nat" where
  "dotted_quad_value s =
     (case split_dots s of
        [a, b, c, d] \<Rightarrow>
          ((number_of_digits 10 a * 256 + number_of_digits 10 b) * 256
             + number_of_digits 10 c) * 256 + number_of_digits 10 d
      | _ \<Rightarrow> 0)"

text \<open>
  The store of the transaction-identifier source after \<open>n\<close> calls, and the
  identifier that call number \<open>n\<close> of a process returns, the calls counted
  from 0.
\<close>

primrec stun_make_transid_calls :: "endianness \<Rightarrow> nat \<Rightarrow> transid_store \<Rightarrow> transid_store" where
  "stun_make_transid_calls e 0 store = store"
| "stun_make_transid_calls e (Suc n) store =
     snd (stun_make_transid e (stun_make_transid_calls e n store))"

definition nth_transid :: "endianness \<Rightarrow> nat \<Rightarrow> u8 list" where
  "nth_transid e n = fst (stun_make_transid e (stun_make_transid_calls e n initial_store))"

text \<open>
  The two type bytes of a header as one big-endian word, by the bit layout of
  the class and the method (spec, section 4.5).
\<close>

definition type_word :: "nat \<Rightarrow> nat \<Rightarrow> u16" where
  "type_word c m =
     push_bit 8 (ucast (of_nat (drop_bit 1 c OR (drop_bit 6 m AND 0x3e)) :: u8)) OR
     ucast (of_nat ((push_bit 4 c AND 0x10) OR (push_bit 1 m AND 0xe0) OR (m AND 0x0f)) :: u8)"

text \<open>
  The error catalog in the words of the spec (section 4.6), and the reason
  phrase it gives a code.
\<close>

definition error_catalog :: "(int \<times> string) list" where
  "error_catalog =
     [(300, ''Try alternate server''), (400, ''Bad request''),
      (401, ''Authorization required''), (420, ''Unknown attribute''),
      (430, ''Authentication expired''), (431, ''Incorrect username/password''),
      (432, ''Username required''), (433, ''Secure connection required''),
      (434, ''Authentication domain required''), (435, ''Authentication token missing''),
      (436, ''Unknown user name''), (438, ''Authentication token expired''),
      (487, ''Role conflict''), (500, ''Temporary server error''),
      (600, ''Unrecoverable failure'')]"

definition reason_phrase :: "int \<Rightarrow> string" where
  "reason_phrase code =
     (case map_of error_catalog code of Some phrase \<Rightarrow> phrase | None \<Rightarrow> ''Unknown error'')"









section \<open>Byte order\<close>

lemma bswap16_bswap16: "bswap16 (bswap16 x) = x"
  unfolding bswap16_def
  apply (rule bit_word_eqI)
  apply (simp add: bit_simps)
  subgoal for n
    by (cases "n < 8") (auto dest: bit_imp_le_length)
  done

lemma mask_ff0000: "(0xff0000 :: u32) = push_bit 16 (mask 8)"
  by (simp add: mask_eq_exp_minus_1)

lemma mask_ff00: "(0xff00 :: u32) = push_bit 8 (mask 8)"
  by (simp add: mask_eq_exp_minus_1)

lemma bit_bswap32:
  "n < 32 \<Longrightarrow>
   bit (bswap32 x) n =
     bit x (if n < 8 then n + 24 else if n < 16 then n + 8
            else if n < 24 then n - 8 else n - 24)"
  unfolding bswap32_def mask_ff0000 mask_ff00
  apply (simp add: bit_simps)
  apply (cases "n < 8"; cases "n < 16"; cases "n < 24"; simp add: add.commute)
    apply (auto dest: bit_imp_le_length)
  done

lemma bswap32_bswap32: "bswap32 (bswap32 x) = x"
  apply (rule bit_word_eqI)
  apply (simp add: bit_bswap32)
  subgoal for n
    by (cases "n < 8"; cases "n < 16"; cases "n < 24"; simp) auto
  done

lemma ntohs_htons: "ntohs e (htons e x) = x"
  by (cases e) (simp_all add: ntohs_def htons_def bswap16_bswap16)

lemma ntohl_htonl: "ntohl e (htonl e x) = x"
  by (cases e) (simp_all add: ntohl_def htonl_def bswap32_bswap32)

section \<open>Addresses\<close>

text \<open>
  C10.  \<open>nice_address_set_ipv4\<close> and \<open>nice_address_set_ipv6\<close> write the type
  and the address payload only: whatever the address held before, its port
  after the call is its port before, so that setting the port and setting
  the address commute.
\<close>

theorem nice_address_set_keeps_port:
  "port (nice_address_set_ipv4 addr a4) = port addr \<and>
   port (nice_address_set_ipv6 addr a6) = port addr \<and>
   nice_address_set_ipv4 (addr\<lparr>port := p\<rparr>) a4 = (nice_address_set_ipv4 addr a4)\<lparr>port := p\<rparr> \<and>
   nice_address_set_ipv6 (addr\<lparr>port := p\<rparr>) a6 = (nice_address_set_ipv6 addr a6)\<lparr>port := p\<rparr>"
  by (simp add: nice_address_set_ipv4_def nice_address_set_ipv6_def)

text \<open>
  C8.  For every address whose type is IPv4 or IPv6,
  \<open>nice_address_copy_to_sockaddr\<close> followed by
  \<open>nice_address_set_from_sockaddr\<close> into any other address returns an address
  that \<open>nice_address_equal\<close> finds equal to the first: the same type, the same
  address bytes and the same port, on a host of either byte order.
\<close>

theorem sockaddr_roundtrip_equal:
  assumes "type a = NICE_ADDRESS_TYPE_IPV4 \<or> type a = NICE_ADDRESS_TYPE_IPV6"
  shows "\<exists>sin' a'.
           nice_address_copy_to_sockaddr e a sin = Returns sin' \<and>
           nice_address_set_from_sockaddr e a0 sin' = Returns a' \<and>
           nice_address_equal a a' = Returns True \<and>
           type a' = type a \<and> port a' = port a \<and>
           (if type a = NICE_ADDRESS_TYPE_IPV4 then addr_ipv4 a' = addr_ipv4 a
            else addr_ipv6 a' = take sizeof_addr_ipv6 (addr_ipv6 a))"
  using assms
  by (auto simp add: nice_address_copy_to_sockaddr_def nice_address_set_from_sockaddr_def
      nice_address_equal_def nice_address_set_ipv4_def nice_address_set_ipv6_def
      ntohl_htonl ntohs_htons AF_INET_def AF_INET6_def INET_ADDRSTRLEN_def sizeof_addr_ipv6_def)

theorem sockaddr_roundtrip_equal_witness:
  "(type \<lparr>type = NICE_ADDRESS_TYPE_IPV6, addr_ipv4 = 0,
          addr_ipv6 = [0x20, 0x01, 0x0d, 0xb8, 0, 0, 0, 0, 0, 0, 0, 0, 0, 0, 0, 1],
          port = 3478\<rparr> = NICE_ADDRESS_TYPE_IPV4 \<or>
    type \<lparr>type = NICE_ADDRESS_TYPE_IPV6, addr_ipv4 = 0,
          addr_ipv6 = [0x20, 0x01, 0x0d, 0xb8, 0, 0, 0, 0, 0, 0, 0, 0, 0, 0, 0, 1],
          port = 3478\<rparr> = NICE_ADDRESS_TYPE_IPV6) \<and>
   (\<exists>sin' a'.
      nice_address_copy_to_sockaddr Little_endian
        \<lparr>type = NICE_ADDRESS_TYPE_IPV6, addr_ipv4 = 0,
         addr_ipv6 = [0x20, 0x01, 0x0d, 0xb8, 0, 0, 0, 0, 0, 0, 0, 0, 0, 0, 0, 1],
         port = 3478\<rparr>
        \<lparr>sa_family = 0, sin_port = 0, sin_addr = 0, sin6_addr = []\<rparr> = Returns sin' \<and>
      nice_address_set_from_sockaddr Little_endian
        \<lparr>type = NICE_ADDRESS_TYPE_UNSET, addr_ipv4 = 7, addr_ipv6 = [], port = 9\<rparr> sin'
        = Returns a' \<and>
      nice_address_equal
        \<lparr>type = NICE_ADDRESS_TYPE_IPV6, addr_ipv4 = 0,
         addr_ipv6 = [0x20, 0x01, 0x0d, 0xb8, 0, 0, 0, 0, 0, 0, 0, 0, 0, 0, 0, 1],
         port = 3478\<rparr> a' = Returns True \<and>
      port a' = 3478)"
  using sockaddr_roundtrip_equal
    [of "\<lparr>type = NICE_ADDRESS_TYPE_IPV6, addr_ipv4 = 0,
         addr_ipv6 = [0x20, 0x01, 0x0d, 0xb8, 0, 0, 0, 0, 0, 0, 0, 0, 0, 0, 0, 1],
         port = 3478\<rparr>" Little_endian
        "\<lparr>sa_family = 0, sin_port = 0, sin_addr = 0, sin6_addr = []\<rparr>"
        "\<lparr>type = NICE_ADDRESS_TYPE_UNSET, addr_ipv4 = 7, addr_ipv6 = [], port = 9\<rparr>"]
  by auto








lemma dotted_quad_value_less: "dotted_quad s \<Longrightarrow> dotted_quad_value s < 2 ^ 32"
  by (auto simp add: dotted_quad_def dotted_quad_value_def decimal_octet_def split: list.splits)




section \<open>Buffers and the attribute reservation\<close>

lemma store_bytes_apply:
  "store_bytes m p bs i = (if p \<le> i \<and> i < p + length bs then bs ! (i - p) else m i)"
proof (induction bs arbitrary: m p)
  case Nil
  show ?case by auto
next
  case (Cons b bs)
  show ?case
    by (auto simp add: Cons.IH nth_Cons')
qed

lemma mask_ff: "(0xff :: u16) = mask 8"
  by (simp add: mask_eq_exp_minus_1)

lemma stun_getw_bytes:
  "push_bit 8 (ucast (ucast (drop_bit 8 v) :: u8)) OR ucast (ucast (v AND 0xff) :: u8) = (v :: u16)"
  unfolding mask_ff
  apply (rule bit_word_eqI)
  apply (simp add: bit_simps)
  subgoal for n
    by (cases "n < 8") auto
  done

lemma stun_getw_setw: "stun_getw (fst (stun_setw m p v)) p = v"
  by (simp add: stun_getw_def stun_setw_def stun_getw_bytes)

lemma stun_getw_cong:
  "m' p = m p \<Longrightarrow> m' (Suc p) = m (Suc p) \<Longrightarrow> stun_getw m' p = stun_getw m p"
  by (simp add: stun_getw_def)

lemma stun_padding_less: "stun_padding n < 4"
  by (simp add: stun_padding_def)

lemma stun_padding_eq: "stun_padding n = (if n mod 4 = 0 then 0 else 4 - n mod 4)"
  by (simp add: stun_padding_def)

lemma stun_padding_mod: "(n + stun_padding n) mod 4 = 0"
proof -
  define r where "r = n mod 4"
  define q where "q = n div 4"
  define p where "p = stun_padding n"
  have r: "r < 4"
    by (simp add: r_def)
  have "r + p = 0 \<or> r + p = 4"
    using r by (auto simp add: p_def stun_padding_eq simp flip: r_def)
  moreover have "n + p = 4 * q + (r + p)"
    by (simp add: r_def q_def)
  ultimately have "(n + p) mod 4 = 0"
    by (metis add.right_neutral mod_mult_self4 mod_self mod_mult_self2_is_0 mult.commute)
  then show ?thesis by (simp add: p_def)
qed

lemma stun_padding_0: "stun_padding n = 0 \<longleftrightarrow> n mod 4 = 0"
  using mod_less_divisor [of 4 n] by (simp add: stun_padding_eq del: mod_less_divisor)

lemma cap_min: "(if msize > maxmsg then maxmsg else msize) = min msize (maxmsg :: nat)"
  by (simp add: min_def)

lemma size_t_le: "size_t n \<le> n"
  by (simp add: size_t_def)

lemma size_t_ident: "n \<le> SIZE_MAX \<Longrightarrow> size_t n = n"
  by (simp add: size_t_def SIZE_MAX_def)

lemma size_t_wrapped: "SIZE_MAX < n \<Longrightarrow> n \<le> 2 * SIZE_MAX + 1 \<Longrightarrow> size_t n = n - (SIZE_MAX + 1)"
  by (simp add: size_t_def SIZE_MAX_def mod_if)

lemma stun_length_le: "unat (stun_length msg) \<le> 65535"
  using unsigned_less [of "stun_length msg", where ?'a = nat] by simp


lemma stun_append_None:
  assumes "stun_padding (unat (stun_length msg)) = 0"
    and "unat (stun_length msg) + 24 + len \<le> SIZE_MAX"
    and "unat (stun_length msg) + 24 + len > min msize maxmsg"
  shows "stun_append maxmsg msg msize t len = Returns (msg, None)"
  using assms by (simp add: stun_append_def cap_min Let_def size_t_ident)

lemma stun_append_wrap:
  assumes pad: "stun_padding (unat (stun_length msg)) = 0"
    and len: "len \<le> SIZE_MAX"
    and wrap: "SIZE_MAX < unat (stun_length msg) + 24 + len"
    and room: "unat (stun_length msg) + 24 + len - (SIZE_MAX + 1) \<le> min msize maxmsg"
  shows "stun_append maxmsg msg msize t len = Assert_failed"
proof -
  have "unat (stun_length msg) + 24 + len \<le> 2 * SIZE_MAX + 1"
    using len stun_length_le [of msg] by (simp add: SIZE_MAX_def)
  with wrap have "size_t (unat (stun_length msg) + 24 + len)
      = unat (stun_length msg) + 24 + len - (SIZE_MAX + 1)"
    by (rule size_t_wrapped)
  moreover have "\<not> len < 65535"
    using wrap stun_length_le [of msg] by (simp add: SIZE_MAX_def)
  ultimately show ?thesis
    using pad room by (simp add: stun_append_def cap_min Let_def not_less)
qed

lemma unat_of_nat_u16: "n < 65536 \<Longrightarrow> unat (of_nat n :: u16) = n"
  by (simp add: unat_of_nat)

lemma stun_append_Some:
  assumes pad: "stun_padding (unat (stun_length msg)) = 0"
    and fits: "unat (stun_length msg) + 24 + len \<le> min msize maxmsg"
    and maxmsg: "maxmsg \<le> 65552"
  shows "\<exists>msg'. stun_append maxmsg msg msize t len = Returns (msg', Some (24 + unat (stun_length msg)))
     \<and> unat (stun_length msg') = unat (stun_length msg) + 4 + len + stun_padding len
     \<and> stun_getw msg' (20 + unat (stun_length msg)) = t
     \<and> stun_getw msg' (22 + unat (stun_length msg)) = of_nat len
     \<and> (\<forall>i. i < 20 + unat (stun_length msg) \<longrightarrow> i \<noteq> 2 \<longrightarrow> i \<noteq> 3 \<longrightarrow> msg' i = msg i)
     \<and> (\<forall>i. 24 + unat (stun_length msg) \<le> i \<longrightarrow> i < 24 + unat (stun_length msg) + len \<longrightarrow> msg' i = msg i)
     \<and> (\<forall>i. 24 + unat (stun_length msg) + len \<le> i \<longrightarrow> i < 24 + unat (stun_length msg) + len + stun_padding len \<longrightarrow> msg' i = 0x20)
     \<and> (\<forall>i. 24 + unat (stun_length msg) + len + stun_padding len \<le> i \<longrightarrow> msg' i = msg i)"
proof -
  define L where "L = unat (stun_length msg)"
  define mlen where "mlen = stun_length msg + (4 + of_nat len) + of_nat (stun_padding len)"
  define m where "m =
    (store_bytes
       (msg(20 + L := ucast (drop_bit 8 t), 21 + L := ucast (t AND 255),
            22 + L := ucast (drop_bit 8 (of_nat len :: u16)),
            23 + L := ucast ((of_nat len :: u16) AND 255)))
       (24 + (L + len)) (replicate (stun_padding len) 32))
    (2 := ucast (drop_bit 8 mlen), 3 := ucast (mlen AND 255))"
  have len: "len < 65535" and sum: "L + 4 + len + stun_padding len < 65536"
    using fits maxmsg stun_padding_less [of len] by (auto simp add: L_def)
  have nofail: "\<not> min msize maxmsg < size_t (unat (stun_length msg) + 24 + len)"
    using fits size_t_le [of "unat (stun_length msg) + 24 + len"] by (simp add: not_less)
  have unat_mlen: "unat mlen = L + 4 + len + stun_padding len"
  proof -
    have "mlen = (of_nat (L + 4 + len + stun_padding len) :: u16)"
      by (simp add: L_def mlen_def)
    then show ?thesis using sum by (simp add: unat_of_nat_u16 del: of_nat_add)
  qed
  have run: "stun_append maxmsg msg msize t len = Returns (m, Some (24 + L))"
    using pad nofail len
    by (simp add: stun_append_def Let_def cap_min split_def memset_def stun_setw_def
        m_def mlen_def L_def)
  have "unat (stun_length m) = L + 4 + len + stun_padding len"
    by (simp add: stun_length_def stun_getw_def m_def stun_getw_bytes unat_mlen)
  moreover have "stun_getw m (20 + L) = t"
    by (simp add: stun_getw_def m_def store_bytes_apply stun_getw_bytes)
  moreover have "stun_getw m (22 + L) = of_nat len"
    by (simp add: stun_getw_def m_def store_bytes_apply stun_getw_bytes)
  moreover have "\<forall>i. i < 20 + L \<longrightarrow> i \<noteq> 2 \<longrightarrow> i \<noteq> 3 \<longrightarrow> m i = msg i"
    by (simp add: m_def store_bytes_apply)
  moreover have "\<forall>i. 24 + L \<le> i \<longrightarrow> i < 24 + L + len \<longrightarrow> m i = msg i"
    by (simp add: m_def store_bytes_apply)
  moreover have "\<forall>i. 24 + L + len \<le> i \<longrightarrow> i < 24 + L + len + stun_padding len \<longrightarrow> m i = 0x20"
    by (simp add: m_def store_bytes_apply)
  moreover have "\<forall>i. 24 + L + len + stun_padding len \<le> i \<longrightarrow> m i = msg i"
    by (simp add: m_def store_bytes_apply)
  ultimately show ?thesis
    using run unfolding L_def by blast
qed

lemma length_load_bytes: "length (load_bytes m p n) = n"
  by (simp add: load_bytes_def)

lemma zero_buffer_length: "unat (stun_length (\<lambda>_. 0)) = 0"
  by (simp add: stun_length_def stun_getw_def)

lemma stun_length_store_bytes:
  "4 \<le> p \<Longrightarrow> stun_length (store_bytes m p bs) = stun_length m"
  by (simp add: stun_length_def stun_getw_def store_bytes_apply)

lemma stun_length_upd:
  "4 \<le> p \<Longrightarrow> stun_length (m(p := b)) = stun_length m"
  by (simp add: stun_length_def stun_getw_def)

lemma advance_mod4:
  assumes "stun_padding L = 0"
  shows "(L + 4 + n + stun_padding n) mod 4 = 0"
proof -
  have "L mod 4 = 0" using assms by (simp add: stun_padding_0)
  moreover have "(n + stun_padding n) mod 4 = 0" by (rule stun_padding_mod)
  ultimately have "(L + 4 + (n + stun_padding n)) mod 4 = 0"
    by (metis add.right_neutral mod_add_eq mod_self add.commute mod_0)
  then show ?thesis by (simp add: add.assoc)
qed

lemma stun_append_SomeD:
  assumes "stun_append maxmsg msg msize t len = Returns (msg', Some p)"
  shows "stun_padding (unat (stun_length msg)) = 0 \<and>
         unat (stun_length msg) + 24 + len \<le> min msize maxmsg"
proof -
  from assms have pad: "stun_padding (unat (stun_length msg)) = 0"
    and room: "size_t (unat (stun_length msg) + 24 + len) \<le> min msize maxmsg"
    and len: "len < 65535"
    by (simp_all add: stun_append_def cap_min Let_def not_less split: if_splits)
  have "unat (stun_length msg) + 24 + len \<le> SIZE_MAX"
    using len stun_length_le [of msg] by (simp add: SIZE_MAX_def)
  with room have "unat (stun_length msg) + 24 + len \<le> min msize maxmsg"
    by (simp add: size_t_ident)
  with pad show ?thesis
    by simp
qed

lemma stun_append_NoneD:
  assumes "stun_append maxmsg msg msize t len = Returns (msg', None)"
  shows "min msize maxmsg < unat (stun_length msg) + 24 + len"
proof -
  from assms have "min msize maxmsg < size_t (unat (stun_length msg) + 24 + len)"
    by (simp add: stun_append_def cap_min Let_def split_def split: if_splits)
  with size_t_le [of "unat (stun_length msg) + 24 + len"] show ?thesis
    by simp
qed

lemma stun_append_bytes_effect:
  assumes pad: "stun_padding (unat (stun_length msg)) = 0"
    and maxmsg: "maxmsg \<le> 65552"
    and nowrap: "unat (stun_length msg) + 24 + len \<le> SIZE_MAX"
  shows "append_effect msg len {ENOBUFS} (stun_append_bytes maxmsg msg msize t data len)"
proof (cases "unat (stun_length msg) + 24 + len \<le> min msize maxmsg")
  case True
  from stun_append_Some [OF pad True maxmsg, of t]
  obtain msg' where run: "stun_append maxmsg msg msize t len = Returns (msg', Some (24 + unat (stun_length msg)))"
    and len: "unat (stun_length msg') = unat (stun_length msg) + 4 + len + stun_padding len"
    by blast
  show ?thesis
    using len advance_mod4 [OF pad, of len]
    by (simp add: append_effect_def stun_append_bytes_def run memcpy_def stun_length_store_bytes)
next
  case False
  then have "min msize maxmsg < unat (stun_length msg) + 24 + len"
    by (simp only: not_le)
  then have "stun_append maxmsg msg msize t len = Returns (msg, None)"
    by (rule stun_append_None [OF pad nowrap])
  then show ?thesis
    by (simp add: append_effect_def stun_append_bytes_def)
qed

lemma div_quot_100_le: "code < 800 \<Longrightarrow> div_quot code 100 \<le> 7"
proof (cases "0 \<le> code")
  case True
  assume "code < 800"
  with True have "code div 100 \<le> 7" by simp
  with True show ?thesis by (simp add: div_quot_def sgn_if)
next
  case False
  then have "0 \<le> \<bar>code\<bar> div 100" by simp
  with False show ?thesis by (simp add: div_quot_def sgn_if)
qed

lemma strlen_stun_strerror_le: "strlen (stun_strerror code) \<le> 30"
  by (simp add: stun_strerror_def stun_strerror_tab_def strlen_def)

lemma error_no_wrap: "unat (stun_length msg) + 24 + (4 + strlen (stun_strerror code)) \<le> SIZE_MAX"
  using stun_length_le [of msg] strlen_stun_strerror_le [of code] by (simp add: SIZE_MAX_def)

lemma stun_append_error_effect:
  assumes pad: "stun_padding (unat (stun_length msg)) = 0"
    and maxmsg: "maxmsg \<le> 65552"
    and code: "code < 800"
  shows "append_effect msg (4 + strlen (stun_strerror code)) {ENOBUFS}
           (stun_append_error maxmsg msg msize code)"
proof (cases "unat (stun_length msg) + 24 + (4 + strlen (stun_strerror code)) \<le> min msize maxmsg")
  case True
  from stun_append_Some [OF pad True maxmsg, of STUN_ERROR_CODE]
  obtain msg' where run: "stun_append maxmsg msg msize STUN_ERROR_CODE (4 + strlen (stun_strerror code))
      = Returns (msg', Some (24 + unat (stun_length msg)))"
    and len: "unat (stun_length msg') =
      unat (stun_length msg) + 4 + (4 + strlen (stun_strerror code))
        + stun_padding (4 + strlen (stun_strerror code))"
    by blast
  show ?thesis
    using len advance_mod4 [OF pad, of "4 + strlen (stun_strerror code)"] div_quot_100_le [OF code]
    by (simp add: append_effect_def stun_append_error_def Let_def run memcpy_def memset_def
        stun_length_store_bytes stun_length_upd)
next
  case False
  then have "min msize maxmsg < unat (stun_length msg) + 24 + (4 + strlen (stun_strerror code))"
    by (simp only: not_le)
  then have "stun_append maxmsg msg msize STUN_ERROR_CODE (4 + strlen (stun_strerror code))
      = Returns (msg, None)"
    by (rule stun_append_None [OF pad error_no_wrap])
  then show ?thesis
    by (simp add: append_effect_def stun_append_error_def Let_def)
qed

lemma append_effect_mono:
  "append_effect msg n errs res \<Longrightarrow> errs \<subseteq> errs' \<Longrightarrow> append_effect msg n errs' res"
  by (auto simp add: append_effect_def split: outcome.splits)

lemma append_effect_error:
  "r \<noteq> Success \<Longrightarrow> r \<in> errs \<Longrightarrow> append_effect msg n errs (Returns (r, msg))"
  by (simp add: append_effect_def)

lemma stun_append_addr_effect:
  assumes pad: "stun_padding (unat (stun_length msg)) = 0"
    and maxmsg: "maxmsg \<le> 65552"
  shows "append_effect msg (if sa_family addr = AF_INET then 8 else 20)
           {ENOBUFS, EINVAL, EAFNOSUPPORT}
           (stun_append_addr e maxmsg msg msize t addr addrlen)"
proof -
  define put where "put = (\<lambda>alen (family :: u8) (nport :: u16) pa.
     and_then (stun_append maxmsg msg msize t (4 + alen))
        (\<lambda>(msg, ptr).
           case ptr of
             None \<Rightarrow> Returns (ENOBUFS, msg)
           | Some ptr \<Rightarrow>
               let msg = msg(ptr := 0);
                   msg = msg(ptr + 1 := family);
                   msg = memcpy msg (ptr + 2) (object_bytes e nport 2) 2;
                   msg = memcpy msg (ptr + 4) pa alen
               in Returns (Success, msg)))"
  have put: "append_effect msg (4 + alen) {ENOBUFS, EINVAL, EAFNOSUPPORT} (put alen family nport pa)"
    if "alen \<le> 16" for alen family nport pa
  proof (cases "unat (stun_length msg) + 24 + (4 + alen) \<le> min msize maxmsg")
    case True
    from stun_append_Some [OF pad True maxmsg, of t]
    obtain msg' where run: "stun_append maxmsg msg msize t (4 + alen)
        = Returns (msg', Some (24 + unat (stun_length msg)))"
      and len: "unat (stun_length msg') =
        unat (stun_length msg) + 4 + (4 + alen) + stun_padding (4 + alen)"
      by blast
    show ?thesis
      using len advance_mod4 [OF pad, of "4 + alen"]
      by (simp add: put_def append_effect_def Let_def run memcpy_def
          stun_length_store_bytes stun_length_upd)
  next
    case False
    then have "min msize maxmsg < unat (stun_length msg) + 24 + (4 + alen)"
      by (simp only: not_le)
    moreover have "unat (stun_length msg) + 24 + (4 + alen) \<le> SIZE_MAX"
      using stun_length_le [of msg] that by (simp add: SIZE_MAX_def)
    ultimately have "stun_append maxmsg msg msize t (4 + alen) = Returns (msg, None)"
      by (rule stun_append_None [OF pad, rotated])
    then show ?thesis
      by (simp add: put_def append_effect_def)
  qed
  have unfold: "stun_append_addr e maxmsg msg msize t addr addrlen =
     (if addrlen < 16 then Returns (EINVAL, msg)
      else if sa_family addr = AF_INET then
        put 4 1 (sin_port addr) (object_bytes e (sin_addr addr) 4)
      else if sa_family addr = AF_INET6 then
        (if addrlen < 28 then Returns (EINVAL, msg)
         else put 16 2 (sin_port addr) (sin6_addr addr))
      else Returns (EAFNOSUPPORT, msg))"
    by (simp add: stun_append_addr_def put_def sizeof_sockaddr_def sizeof_sockaddr_in_def
        sizeof_sockaddr_in6_def)
  show ?thesis
    unfolding unfold
    using put [of 4] put [of 16]
    by (simp add: append_effect_error)
qed

lemma stun_append_effect:
  assumes pad: "stun_padding (unat (stun_length msg)) = 0"
    and maxmsg: "maxmsg \<le> 65552"
    and nowrap: "unat (stun_length msg) + 24 + len \<le> SIZE_MAX"
  shows "reserve_effect msg len (stun_append maxmsg msg msize t len)"
proof (cases "unat (stun_length msg) + 24 + len \<le> min msize maxmsg")
  case True
  from stun_append_Some [OF pad True maxmsg, of t]
  obtain msg' where run: "stun_append maxmsg msg msize t len = Returns (msg', Some (24 + unat (stun_length msg)))"
    and len: "unat (stun_length msg') = unat (stun_length msg) + 4 + len + stun_padding len"
    by blast
  show ?thesis
    using len advance_mod4 [OF pad, of len]
    by (simp add: reserve_effect_def run)
next
  case False
  then have "min msize maxmsg < unat (stun_length msg) + 24 + len"
    by (simp only: not_le)
  then have "stun_append maxmsg msg msize t len = Returns (msg, None)"
    by (rule stun_append_None [OF pad nowrap])
  then show ?thesis
    by (simp add: reserve_effect_def)
qed

lemma stun_append_xor_addr_effect:
  assumes pad: "stun_padding (unat (stun_length msg)) = 0"
    and maxmsg: "maxmsg \<le> 65552"
  shows "append_effect msg (if sa_family (snd (X msg addr addrlen)) = AF_INET then 8 else 20)
           {ENOBUFS, EINVAL, EAFNOSUPPORT}
           (stun_append_xor_addr e maxmsg X msg msize t addr addrlen)"
proof (cases "fst (X msg addr addrlen) = Success")
  case True
  then show ?thesis
    using stun_append_addr_effect [OF pad maxmsg, of "snd (X msg addr addrlen)" e msize t addrlen]
    by (simp add: stun_append_xor_addr_def split_def)
next
  case False
  then have "fst (X msg addr addrlen) \<in> {ENOBUFS, EINVAL, EAFNOSUPPORT}"
    by (cases "fst (X msg addr addrlen)") simp_all
  with False show ?thesis
    by (simp add: stun_append_xor_addr_def split_def append_effect_error)
qed

text \<open>
  C3, as amended.  On a message whose length field is a multiple of 4, with
  \<open>STUN_MAXMSG\<close> at most 65552, an error code below 800 and a payload length
  for which the sum \<open>mlen + 24 + length\<close> of the room check does not exceed
  \<open>SIZE_MAX\<close>, every append operation returns, and either it fails and the
  length field of the header is unchanged, or it succeeds and the length
  field advances by exactly \<open>4 + length + stun_padding length\<close> and stays a
  multiple of 4.  The failure is the lack of buffer space (null pointer,
  \<open>ENOBUFS\<close>) for \<open>stun_append\<close> and the appenders of bytes, flags, integers,
  strings and error codes; the two address appenders also fail with
  \<open>EINVAL\<close> and \<open>EAFNOSUPPORT\<close>.
\<close>

theorem append_length_effect:
  assumes pad: "stun_padding (unat (stun_length msg)) = 0"
    and maxmsg: "maxmsg \<le> 65552"
    and code: "code < 800"
    and len: "unat (stun_length msg) + 24 + len \<le> SIZE_MAX"
    and str: "unat (stun_length msg) + 24 + strlen str \<le> SIZE_MAX"
  shows "reserve_effect msg len (stun_append maxmsg msg msize t len) \<and>
    append_effect msg len {ENOBUFS} (stun_append_bytes maxmsg msg msize t data len) \<and>
    append_effect msg 0 {ENOBUFS} (stun_append_flag maxmsg msg msize t) \<and>
    append_effect msg 4 {ENOBUFS} (stun_append32 e maxmsg msg msize t v32) \<and>
    append_effect msg 8 {ENOBUFS} (stun_append64 e maxmsg msg msize t v64) \<and>
    append_effect msg (strlen str) {ENOBUFS} (stun_append_string maxmsg msg msize t str) \<and>
    append_effect msg (4 + strlen (stun_strerror code)) {ENOBUFS}
      (stun_append_error maxmsg msg msize code) \<and>
    append_effect msg (if sa_family addr = AF_INET then 8 else 20)
      {ENOBUFS, EINVAL, EAFNOSUPPORT}
      (stun_append_addr e maxmsg msg msize t addr addrlen) \<and>
    append_effect msg (if sa_family (snd (X msg addr addrlen)) = AF_INET then 8 else 20)
      {ENOBUFS, EINVAL, EAFNOSUPPORT}
      (stun_append_xor_addr e maxmsg X msg msize t addr addrlen)"
proof -
  have small: "unat (stun_length msg) + 24 + n \<le> SIZE_MAX" if "n \<le> 8" for n
    using stun_length_le [of msg] that by (simp add: SIZE_MAX_def)
  note bytes = stun_append_bytes_effect [OF pad maxmsg]
  have "append_effect msg 0 {ENOBUFS} (stun_append_flag maxmsg msg msize t)"
    unfolding stun_append_flag_def by (rule bytes, rule small) simp
  moreover have "append_effect msg 4 {ENOBUFS} (stun_append32 e maxmsg msg msize t v32)"
    unfolding stun_append32_def Let_def by (rule bytes, rule small) simp
  moreover have "append_effect msg 8 {ENOBUFS} (stun_append64 e maxmsg msg msize t v64)"
    unfolding stun_append64_def Let_def by (rule bytes, rule small) simp
  moreover have "append_effect msg (strlen str) {ENOBUFS}
      (stun_append_string maxmsg msg msize t str)"
    unfolding stun_append_string_def by (rule bytes) (rule str)
  ultimately show ?thesis
    using stun_append_effect [OF pad maxmsg len] bytes [OF len]
      stun_append_error_effect [OF pad maxmsg code]
      stun_append_addr_effect [OF pad maxmsg]
      stun_append_xor_addr_effect [OF pad maxmsg]
    by blast
qed

theorem append_length_effect_witness:
  "stun_padding (unat (stun_length (\<lambda>_. 0))) = 0 \<and> (65552 :: nat) \<le> 65552 \<and> (401 :: int) < 800 \<and>
   unat (stun_length (\<lambda>_. 0)) + 24 + 5 \<le> SIZE_MAX \<and>
   unat (stun_length (\<lambda>_. 0)) + 24 + strlen ''hello'' \<le> SIZE_MAX \<and>
   append_effect (\<lambda>_. 0) (strlen ''hello'') {ENOBUFS}
     (stun_append_string 65552 (\<lambda>_. 0) 100 STUN_USERNAME ''hello'') \<and>
   stun_append_string 65552 (\<lambda>_. 0) 100 STUN_USERNAME ''hello'' \<noteq> Assert_failed"
proof -
  have pad: "stun_padding (unat (stun_length (\<lambda>_. 0))) = 0"
    by (simp add: zero_buffer_length stun_padding_def)
  have maxmsg: "(65552 :: nat) \<le> 65552" and code: "(401 :: int) < 800"
    by simp_all
  have len: "unat (stun_length (\<lambda>_. 0)) + 24 + 5 \<le> SIZE_MAX"
    and str: "unat (stun_length (\<lambda>_. 0)) + 24 + strlen ''hello'' \<le> SIZE_MAX"
    by (simp_all add: zero_buffer_length SIZE_MAX_def strlen_def)
  from append_length_effect [OF pad maxmsg code len str]
  have eff: "append_effect (\<lambda>_. 0) (strlen ''hello'') {ENOBUFS}
     (stun_append_string 65552 (\<lambda>_. 0) 100 STUN_USERNAME ''hello'')"
    by blast
  then have "stun_append_string 65552 (\<lambda>_. 0) 100 STUN_USERNAME ''hello'' \<noteq> Assert_failed"
    by (auto simp add: append_effect_def)
  with pad maxmsg code len str eff show ?thesis by blast
qed

text \<open>
  The claim as it was stated fails on \<open>stun_append_addr\<close>: for a socket
  address of a family other than \<open>AF_INET\<close> and \<open>AF_INET6\<close> the call neither
  succeeds nor fails for lack of buffer space.  It also fails on
  \<open>stun_append\<close> for a length of \<open>SIZE_MAX - 23\<close>: the sum of the room check
  wraps around to 0, and the call aborts at its assertion on the length.
\<close>

theorem append_addr_unsupported_family:
  "stun_append_addr Little_endian 65552 (\<lambda>_. 0) 100 STUN_USERNAME
     \<lparr>sa_family = 1, sin_port = 0, sin_addr = 0, sin6_addr = []\<rparr> 16
   = Returns (EAFNOSUPPORT, \<lambda>_. 0) \<and>
   \<not> append_effect (\<lambda>_. 0) 8 {ENOBUFS}
     (stun_append_addr Little_endian 65552 (\<lambda>_. 0) 100 STUN_USERNAME
        \<lparr>sa_family = 1, sin_port = 0, sin_addr = 0, sin6_addr = []\<rparr> 16) \<and>
   \<not> append_effect (\<lambda>_. 0) 20 {ENOBUFS}
     (stun_append_addr Little_endian 65552 (\<lambda>_. 0) 100 STUN_USERNAME
        \<lparr>sa_family = 1, sin_port = 0, sin_addr = 0, sin6_addr = []\<rparr> 16) \<and>
   stun_append 65552 (\<lambda>_. 0) 100 STUN_USERNAME 18446744073709551592 = Assert_failed \<and>
   \<not> reserve_effect (\<lambda>_. 0) 18446744073709551592
     (stun_append 65552 (\<lambda>_. 0) 100 STUN_USERNAME 18446744073709551592)"
proof -
  have "stun_append 65552 (\<lambda>_. 0) 100 STUN_USERNAME 18446744073709551592 = Assert_failed"
    by (simp add: stun_append_def zero_buffer_length stun_padding_def size_t_def Let_def)
  then show ?thesis
    by (simp add: stun_append_addr_def sizeof_sockaddr_def AF_INET_def AF_INET6_def
        append_effect_def reserve_effect_def)
qed

text \<open>
  C4, as amended.  On a message whose length field \<open>mlen\<close> is a multiple of
  4, with \<open>STUN_MAXMSG\<close> at most 65552 and a length for which the sum
  \<open>mlen + 24 + length\<close> does not exceed \<open>SIZE_MAX\<close>, \<open>stun_append\<close> fails with
  the null pointer if and only if \<open>mlen + 24 + length > min msize STUN_MAXMSG\<close>,
  and then the buffer is unchanged; otherwise it returns the payload slot at
  offset \<open>20 + mlen + 4\<close>.  The 24 is the header of 20 bytes and the 4 bytes of
  type and length of the attribute itself: nothing is said about room for a
  later MESSAGE-INTEGRITY attribute.
\<close>

theorem stun_append_no_space_iff:
  assumes pad: "stun_padding (unat (stun_length msg)) = 0"
    and maxmsg: "maxmsg \<le> 65552"
    and nowrap: "unat (stun_length msg) + 24 + len \<le> SIZE_MAX"
  shows "((\<exists>msg'. stun_append maxmsg msg msize t len = Returns (msg', None)) \<longleftrightarrow>
            unat (stun_length msg) + 24 + len > min msize maxmsg) \<and>
         (unat (stun_length msg) + 24 + len > min msize maxmsg \<longrightarrow>
            stun_append maxmsg msg msize t len = Returns (msg, None)) \<and>
         (unat (stun_length msg) + 24 + len \<le> min msize maxmsg \<longrightarrow>
            (\<exists>msg'. stun_append maxmsg msg msize t len
                      = Returns (msg', Some (20 + unat (stun_length msg) + 4))))"
proof -
  have "stun_append maxmsg msg msize t len = Returns (msg, None)"
    if "unat (stun_length msg) + 24 + len > min msize maxmsg"
    using that by (rule stun_append_None [OF pad nowrap])
  moreover have "\<exists>msg'. stun_append maxmsg msg msize t len
      = Returns (msg', Some (20 + unat (stun_length msg) + 4))"
    if "unat (stun_length msg) + 24 + len \<le> min msize maxmsg"
    using stun_append_Some [OF pad that maxmsg, of t] by auto
  moreover have "unat (stun_length msg) + 24 + len > min msize maxmsg"
    if "stun_append maxmsg msg msize t len = Returns (msg', None)" for msg'
    using that by (rule stun_append_NoneD)
  ultimately show ?thesis by blast
qed

theorem stun_append_no_space_iff_witness:
  "stun_padding (unat (stun_length (\<lambda>_. 0))) = 0 \<and> (65552 :: nat) \<le> 65552 \<and>
   unat (stun_length (\<lambda>_. 0)) + 24 + 5 \<le> SIZE_MAX \<and>
   min 28 65552 < unat (stun_length (\<lambda>_. 0)) + 24 + (5 :: nat) \<and>
   stun_append 65552 (\<lambda>_. 0) 28 STUN_USERNAME 5 = Returns (\<lambda>_. 0, None) \<and>
   unat (stun_length (\<lambda>_. 0)) + 24 + 4 \<le> SIZE_MAX \<and>
   unat (stun_length (\<lambda>_. 0)) + 24 + 4 \<le> min 28 (65552 :: nat) \<and>
   (\<exists>msg'. stun_append 65552 (\<lambda>_. 0) 28 STUN_USERNAME 4 = Returns (msg', Some 24))"
proof -
  note len = zero_buffer_length
  have pad: "stun_padding (unat (stun_length (\<lambda>_. 0))) = 0"
    by (simp add: len stun_padding_def)
  have maxmsg: "(65552 :: nat) \<le> 65552"
    by simp
  have nowrap5: "unat (stun_length (\<lambda>_. 0)) + 24 + 5 \<le> SIZE_MAX"
    and nowrap4: "unat (stun_length (\<lambda>_. 0)) + 24 + 4 \<le> SIZE_MAX"
    by (simp_all add: len SIZE_MAX_def)
  have no: "min 28 65552 < unat (stun_length (\<lambda>_. 0)) + 24 + (5 :: nat)"
    and yes: "unat (stun_length (\<lambda>_. 0)) + 24 + 4 \<le> min 28 (65552 :: nat)"
    by (simp_all add: len)
  from stun_append_no_space_iff [OF pad maxmsg nowrap5, of 28 STUN_USERNAME] no
  have "stun_append 65552 (\<lambda>_. 0) 28 STUN_USERNAME 5 = Returns (\<lambda>_. 0, None)"
    by blast
  moreover from stun_append_no_space_iff [OF pad maxmsg nowrap4, of 28 STUN_USERNAME] yes
  have "\<exists>msg'. stun_append 65552 (\<lambda>_. 0) 28 STUN_USERNAME 4 = Returns (msg', Some 24)"
    by (simp add: len)
  ultimately show ?thesis
    using pad maxmsg nowrap5 nowrap4 no yes by blast
qed

text \<open>
  The margin does not keep room for MESSAGE-INTEGRITY: in a buffer of 28
  bytes a USERNAME of 4 bytes is appended, and the reservation of the
  MESSAGE-INTEGRITY attribute by \<open>stun_finish_short\<close> then fails for lack of
  room.  Nor is the comparison the whole condition: for a length of
  \<open>SIZE_MAX - 23\<close> the mathematical sum is above the size of the buffer, the
  sum in \<open>size_t\<close> is 0, and the call aborts at its assertion on the length
  where the claim has it return the null pointer.
\<close>

theorem append_margin_counterexample:
  "(case stun_append_string 65552 (\<lambda>_. 0) 28 STUN_USERNAME ''user'' of
      Returns (Success, msg) \<Rightarrow>
        stun_append 65552 msg 28 STUN_MESSAGE_INTEGRITY 20 = Returns (msg, None) \<and>
        (case stun_finish_short Little_endian 65552 (\<lambda>key data. replicate 20 0) (\<lambda>msg. 0)
                msg 28 None (Some ''pass'') None 0 of
           Returns (val, _, plen) \<Rightarrow> val = ENOBUFS \<and> plen = 28
         | _ \<Rightarrow> False)
    | _ \<Rightarrow> False) \<and>
   min 28 65552 < unat (stun_length (\<lambda>_. 0)) + 24 + (18446744073709551592 :: nat) \<and>
   stun_append 65552 (\<lambda>_. 0) 28 STUN_NONCE 18446744073709551592 = Assert_failed"
proof -
  note len = zero_buffer_length
  have pad: "stun_padding (unat (stun_length (\<lambda>_. 0))) = 0"
    by (simp add: len stun_padding_def)
  have "unat (stun_length (\<lambda>_. 0)) + 24 + 4 \<le> min 28 (65552 :: nat)"
    by (simp add: len)
  from stun_append_Some [OF pad this, of STUN_USERNAME]
  obtain msg where run: "stun_append 65552 (\<lambda>_. 0) 28 STUN_USERNAME 4 = Returns (msg, Some 24)"
    and len': "unat (stun_length msg) = 8"
    by (auto simp add: len stun_padding_def)
  define msg1 where "msg1 = memcpy msg 24 (string_bytes ''user'') 4"
  have len1: "unat (stun_length msg1) = 8"
    by (simp add: msg1_def memcpy_def stun_length_store_bytes len')
  have pad1: "stun_padding (unat (stun_length msg1)) = 0"
    by (simp add: len1 stun_padding_def)
  have mi: "stun_append 65552 msg1 28 STUN_MESSAGE_INTEGRITY 20 = Returns (msg1, None)"
    by (rule stun_append_None [OF pad1]) (simp_all add: len1 SIZE_MAX_def)
  have user: "strlen ''user'' = 4"
    by (simp add: strlen_def)
  have app: "stun_append_string 65552 (\<lambda>_. 0) 28 STUN_USERNAME ''user'' = Returns (Success, msg1)"
    by (simp add: stun_append_string_def stun_append_bytes_def user run msg1_def)
  have fin: "stun_finish_short Little_endian 65552 (\<lambda>key data. replicate 20 0) (\<lambda>msg. 0)
      msg1 28 None (Some ''pass'') None 0 = Returns (ENOBUFS, msg1, 28)"
    by (simp add: stun_finish_short_def stun_finish_long_def mi)
  have wrap: "stun_append 65552 (\<lambda>_. 0) 28 STUN_NONCE 18446744073709551592 = Assert_failed"
    by (simp add: stun_append_def len stun_padding_def size_t_def Let_def)
  show ?thesis
    by (simp add: app mi fin wrap len)
qed

section \<open>The keyed hash of a message\<close>

text \<open>
  C1, as amended.  For a message whose length field \<open>mlen\<close> is at least 32,
  \<open>stun_sha1\<close> writes to \<open>sha\<close> the 20 bytes of the HMAC-SHA1, keyed with the
  key, of exactly the first \<open>mlen - 12\<close> bytes of the message.  When the
  message ends with the MESSAGE-INTEGRITY and FINGERPRINT attributes as
  \<open>stun_finish_long\<close> reserves them, this prefix ends where the
  MESSAGE-INTEGRITY attribute begins: it holds the header and the attributes
  before it, and no byte of the MESSAGE-INTEGRITY attribute, neither its type
  and length nor its payload.
\<close>

theorem stun_sha1_prefix:
  assumes mlen: "32 \<le> unat (stun_length msg)"
  shows "stun_sha1 HMAC_sha1 msg key keylen =
           Returns (take SHA_DIGEST_LENGTH
             (HMAC_sha1 (take keylen key) (load_bytes msg 0 (unat (stun_length msg) - 12)))) \<and>
         stun_sha1_data msg = load_bytes msg 0 (unat (stun_length msg) - 12) \<and>
         (\<forall>maxmsg msize msg0 msg1 sha crc.
            maxmsg \<le> 65552 \<and>
            stun_append maxmsg msg0 msize STUN_MESSAGE_INTEGRITY 20 = Returns (msg1, Some sha) \<and>
            stun_append maxmsg msg1 msize STUN_FINGERPRINT 4 = Returns (msg, Some crc) \<longrightarrow>
            length (stun_sha1_data msg) = 20 + unat (stun_length msg0) \<and>
            sha = 20 + unat (stun_length msg0) + 4)"
proof -
  have part: "length (stun_sha1_data msg) = 20 + unat (stun_length msg0) \<and>
        sha = 20 + unat (stun_length msg0) + 4"
    if maxmsg: "maxmsg \<le> 65552"
      and mi: "stun_append maxmsg msg0 msize STUN_MESSAGE_INTEGRITY 20 = Returns (msg1, Some sha)"
      and fp: "stun_append maxmsg msg1 msize STUN_FINGERPRINT 4 = Returns (msg, Some crc)"
    for maxmsg msize msg0 msg1 sha crc
  proof -
    from stun_append_SomeD [OF mi]
    have pad0: "stun_padding (unat (stun_length msg0)) = 0"
      and fits0: "unat (stun_length msg0) + 24 + 20 \<le> min msize maxmsg"
      by simp_all
    from stun_append_Some [OF pad0 fits0 maxmsg, of STUN_MESSAGE_INTEGRITY] mi
    have sha: "sha = 24 + unat (stun_length msg0)"
      and len1: "unat (stun_length msg1) = unat (stun_length msg0) + 24"
      by (auto simp add: stun_padding_def)
    from stun_append_SomeD [OF fp]
    have pad1: "stun_padding (unat (stun_length msg1)) = 0"
      and fits1: "unat (stun_length msg1) + 24 + 4 \<le> min msize maxmsg"
      by simp_all
    from stun_append_Some [OF pad1 fits1 maxmsg, of STUN_FINGERPRINT] fp
    have len2: "unat (stun_length msg) = unat (stun_length msg1) + 8"
      by (auto simp add: stun_padding_def)
    show ?thesis
      by (simp add: stun_sha1_data_def length_load_bytes len2 len1 sha)
  qed
  have p1: "stun_sha1 HMAC_sha1 msg key keylen =
      Returns (take SHA_DIGEST_LENGTH
        (HMAC_sha1 (take keylen key) (load_bytes msg 0 (unat (stun_length msg) - 12))))"
    using mlen by (simp add: stun_sha1_def stun_sha1_data_def)
  have p2: "stun_sha1_data msg = load_bytes msg 0 (unat (stun_length msg) - 12)"
    by (simp add: stun_sha1_data_def)
  have p3: "\<forall>maxmsg msize msg0 msg1 sha crc.
      maxmsg \<le> 65552 \<and>
      stun_append maxmsg msg0 msize STUN_MESSAGE_INTEGRITY 20 = Returns (msg1, Some sha) \<and>
      stun_append maxmsg msg1 msize STUN_FINGERPRINT 4 = Returns (msg, Some crc) \<longrightarrow>
      length (stun_sha1_data msg) = 20 + unat (stun_length msg0) \<and>
      sha = 20 + unat (stun_length msg0) + 4"
    using part by blast
  show ?thesis
    by (intro conjI p1 p2 p3)
qed

theorem stun_sha1_prefix_witness:
  "(case stun_append 65552 (\<lambda>_. 0) 100 STUN_MESSAGE_INTEGRITY 20 of
      Returns (msg1, Some sha) \<Rightarrow>
        (case stun_append 65552 msg1 100 STUN_FINGERPRINT 4 of
           Returns (msg, Some crc) \<Rightarrow>
             32 \<le> unat (stun_length msg) \<and>
             stun_sha1 (\<lambda>key data. data) msg [1, 2, 3] 3
               = Returns (take SHA_DIGEST_LENGTH (load_bytes msg 0 20)) \<and>
             length (stun_sha1_data msg) = 20 \<and> sha = 24
         | _ \<Rightarrow> False)
    | _ \<Rightarrow> False)"
proof -
  have pad: "stun_padding (unat (stun_length (\<lambda>_. 0))) = 0"
    by (simp add: zero_buffer_length stun_padding_def)
  have "unat (stun_length (\<lambda>_. 0)) + 24 + 20 \<le> min 100 (65552 :: nat)"
    by (simp add: zero_buffer_length)
  from stun_append_Some [OF pad this, of STUN_MESSAGE_INTEGRITY]
  obtain msg1 sha where mi: "stun_append 65552 (\<lambda>_. 0) 100 STUN_MESSAGE_INTEGRITY 20
      = Returns (msg1, Some sha)"
    and len1: "unat (stun_length msg1) = 24"
    by (auto simp add: zero_buffer_length stun_padding_def)
  have pad1: "stun_padding (unat (stun_length msg1)) = 0"
    by (simp add: len1 stun_padding_def)
  have "unat (stun_length msg1) + 24 + 4 \<le> min 100 (65552 :: nat)"
    by (simp add: len1)
  from stun_append_Some [OF pad1 this, of STUN_FINGERPRINT]
  obtain msg crc where fp: "stun_append 65552 msg1 100 STUN_FINGERPRINT 4 = Returns (msg, Some crc)"
    and len2: "unat (stun_length msg) = 32"
    by (auto simp add: len1 stun_padding_def)
  have mlen: "32 \<le> unat (stun_length msg)"
    by (simp add: len2)
  have maxmsg: "(65552 :: nat) \<le> 65552"
    by simp
  note prefix = stun_sha1_prefix [OF mlen, of "\<lambda>key data. data" "[1, 2, 3]" 3]
  from prefix have "stun_sha1 (\<lambda>key data. data) msg [1, 2, 3] 3
      = Returns (take SHA_DIGEST_LENGTH (load_bytes msg 0 (unat (stun_length msg) - 12)))"
    by (rule conjunct1)
  then have digest: "stun_sha1 (\<lambda>key data. data) msg [1, 2, 3] 3
      = Returns (take SHA_DIGEST_LENGTH (load_bytes msg 0 20))"
    by (simp add: len2)
  from prefix maxmsg mi fp
  have "length (stun_sha1_data msg) = 20 + unat (stun_length (\<lambda>_. 0)) \<and>
      sha = 20 + unat (stun_length (\<lambda>_. 0)) + 4"
    by blast
  then have "length (stun_sha1_data msg) = 20" and "sha = 24"
    by (simp_all add: zero_buffer_length)
  with mlen digest show ?thesis
    by (simp add: mi fp)
qed

text \<open>
  The claim as it was stated has the type and length of the
  MESSAGE-INTEGRITY attribute inside the hashed prefix.  On a message with no
  other attribute the payload slot of MESSAGE-INTEGRITY is at offset 24, its
  type and length at offsets 20 to 23, and the hashed prefix is the 20 bytes
  of the header.
\<close>

theorem stun_sha1_excludes_integrity_header:
  "(case stun_append 65552 (\<lambda>_. 0) 100 STUN_MESSAGE_INTEGRITY 20 of
      Returns (msg1, Some sha) \<Rightarrow>
        (case stun_append 65552 msg1 100 STUN_FINGERPRINT 4 of
           Returns (msg, Some crc) \<Rightarrow>
             sha = 24 \<and> unat (stun_length msg) = 32 \<and> length (stun_sha1_data msg) = 20 \<and>
             \<not> sha \<le> length (stun_sha1_data msg)
         | _ \<Rightarrow> False)
    | _ \<Rightarrow> False)"
proof -
  have pad: "stun_padding (unat (stun_length (\<lambda>_. 0))) = 0"
    by (simp add: zero_buffer_length stun_padding_def)
  have "unat (stun_length (\<lambda>_. 0)) + 24 + 20 \<le> min 100 (65552 :: nat)"
    by (simp add: zero_buffer_length)
  from stun_append_Some [OF pad this, of STUN_MESSAGE_INTEGRITY]
  obtain msg1 where mi: "stun_append 65552 (\<lambda>_. 0) 100 STUN_MESSAGE_INTEGRITY 20
      = Returns (msg1, Some 24)"
    and len1: "unat (stun_length msg1) = 24"
    by (auto simp add: zero_buffer_length stun_padding_def)
  have pad1: "stun_padding (unat (stun_length msg1)) = 0"
    by (simp add: len1 stun_padding_def)
  have "unat (stun_length msg1) + 24 + 4 \<le> min 100 (65552 :: nat)"
    by (simp add: len1)
  from stun_append_Some [OF pad1 this, of STUN_FINGERPRINT]
  obtain msg where fp: "stun_append 65552 msg1 100 STUN_FINGERPRINT 4 = Returns (msg, Some 48)"
    and len2: "unat (stun_length msg) = 32"
    by (auto simp add: len1 stun_padding_def)
  show ?thesis
    by (simp add: mi fp len2 stun_sha1_data_def length_load_bytes)
qed

section \<open>Transaction identifiers\<close>

lemma length_le_bytes: "length (le_bytes x n) = n"
  by (simp add: le_bytes_def)

lemma length_object_bytes: "length (object_bytes e x n) = n"
  by (cases e) (simp_all add: object_bytes_def be_bytes_def length_le_bytes)

lemma le_bytes_u64_inj:
  fixes x y :: u64
  assumes "le_bytes x 8 = le_bytes y 8"
  shows "x = y"
proof (rule bit_word_eqI)
  fix n
  assume "n < LENGTH(64)"
  then have n: "n div 8 < 8" by simp
  from assms have "\<forall>i \<in> set [0..<8]. (ucast (drop_bit (8 * i) x) :: u8) = ucast (drop_bit (8 * i) y)"
    unfolding le_bytes_def by (simp only: map_eq_conv)
  with n have "(ucast (drop_bit (8 * (n div 8)) x) :: u8) = ucast (drop_bit (8 * (n div 8)) y)"
    by simp
  then have "bit (ucast (drop_bit (8 * (n div 8)) x) :: u8) (n mod 8)
      = bit (ucast (drop_bit (8 * (n div 8)) y) :: u8) (n mod 8)"
    by simp
  then show "bit x n = bit y n"
    by (simp add: bit_simps)
qed

lemma object_bytes_u64_inj:
  fixes x y :: u64
  assumes "object_bytes e x 8 = object_bytes e y 8"
  shows "x = y"
  using assms by (cases e) (auto simp add: object_bytes_def be_bytes_def dest: le_bytes_u64_inj)

lemma counter_calls:
  "counter (stun_make_transid_calls e n store) = counter store + of_nat n"
  by (induction n) (simp_all add: stun_make_transid_def Let_def)

lemma of_nat_u64_inj:
  assumes "i < j" and "j < 2 ^ 64"
  shows "(of_nat i :: u64) \<noteq> of_nat j"
proof
  assume "(of_nat i :: u64) = of_nat j"
  then have "unat (of_nat i :: u64) = unat (of_nat j :: u64)" by simp
  with assms show False by (simp add: unat_of_nat)
qed

lemma replicate_4_zero: "replicate 4 (0 :: u8) = [0, 0, 0, 0]"
  by (simp add: numeral_eq_Suc)

lemma stun_make_transid_ident:
  "fst (stun_make_transid e store) = [0, 0, 0, 0] @ object_bytes e (counter store) 8"
  by (simp add: stun_make_transid_def Let_def length_object_bytes replicate_4_zero)

text \<open>
  C7, as amended.  Every call to the transaction-identifier source returns an
  identifier of 12 bytes whose bytes 0 to 3 are zero and whose bytes 4 to 11
  hold the 64-bit counter as it lies in memory, in the byte order of the
  host (the big-endian encoding on a big-endian host only); the counter
  increments by one per call, and any two of the first \<open>2 ^ 64\<close> identifiers
  that a process produces are distinct.
\<close>

theorem transid_host_order:
  "length (fst (stun_make_transid e store)) = 12 \<and>
   take 4 (fst (stun_make_transid e store)) = [0, 0, 0, 0] \<and>
   drop 4 (fst (stun_make_transid e store)) = object_bytes e (counter store) 8 \<and>
   (e = Big_endian \<longrightarrow> drop 4 (fst (stun_make_transid e store)) = be_bytes (counter store) 8) \<and>
   snd (stun_make_transid e store) = store\<lparr>counter := counter store + 1\<rparr> \<and>
   (\<forall>i j. i < j \<and> j < 2 ^ 64 \<longrightarrow> nth_transid e i \<noteq> nth_transid e j)"
proof -
  have "nth_transid e i \<noteq> nth_transid e j" if "i < j" and "j < 2 ^ 64" for i j
  proof
    assume "nth_transid e i = nth_transid e j"
    then have "object_bytes e (of_nat i :: u64) 8 = object_bytes e (of_nat j :: u64) 8"
      by (simp add: nth_transid_def stun_make_transid_ident counter_calls initial_store_def)
    then have "(of_nat i :: u64) = of_nat j"
      by (rule object_bytes_u64_inj)
    with of_nat_u64_inj [OF that] show False by simp
  qed
  then have distinct: "\<forall>i j. i < j \<and> j < 2 ^ 64 \<longrightarrow> nth_transid e i \<noteq> nth_transid e j"
    by blast
  have big: "object_bytes Big_endian (counter store) 8 = be_bytes (counter store) 8"
    by (simp add: object_bytes_def)
  have store: "snd (stun_make_transid e store) = store\<lparr>counter := counter store + 1\<rparr>"
    by (simp add: stun_make_transid_def Let_def)
  show ?thesis
    using distinct big store by (simp add: stun_make_transid_ident length_object_bytes)
qed

theorem transid_host_order_witness:
  "(0 :: nat) < 1 \<and> (1 :: nat) < 2 ^ 64 \<and>
   nth_transid Little_endian 0 \<noteq> nth_transid Little_endian 1 \<and>
   drop 4 (fst (stun_make_transid Big_endian \<lparr>counter = 258\<rparr>)) = be_bytes (258 :: u64) 8 \<and>
   snd (stun_make_transid Big_endian \<lparr>counter = 258\<rparr>) = \<lparr>counter = 259\<rparr>"
proof -
  have lt: "(0 :: nat) < 1 \<and> (1 :: nat) < 2 ^ 64"
    by simp
  with transid_host_order [of Little_endian initial_store]
  have "nth_transid Little_endian 0 \<noteq> nth_transid Little_endian 1"
    by blast
  moreover from transid_host_order [of Big_endian "\<lparr>counter = 258\<rparr>"]
  have "drop 4 (fst (stun_make_transid Big_endian \<lparr>counter = 258\<rparr>)) = be_bytes (258 :: u64) 8"
    and "snd (stun_make_transid Big_endian \<lparr>counter = 258\<rparr>) = \<lparr>counter = 259\<rparr>"
    by (simp_all add: object_bytes_def)
  ultimately show ?thesis
    using lt by blast
qed

text \<open>
  The claim as it was stated has the big-endian encoding on every host.  On
  a little-endian host the second identifier of a process holds the counter 1
  with its least significant byte first.
\<close>

theorem transid_little_endian_host:
  "drop 4 (fst (stun_make_transid Little_endian \<lparr>counter = 1\<rparr>)) = [1, 0, 0, 0, 0, 0, 0, 0] \<and>
   be_bytes (1 :: u64) 8 = [0, 0, 0, 0, 0, 0, 0, 1] \<and>
   drop 4 (fst (stun_make_transid Little_endian \<lparr>counter = 1\<rparr>)) \<noteq> be_bytes (1 :: u64) 8"
  by (simp add: stun_make_transid_def Let_def object_bytes_def le_bytes_def be_bytes_def upt_rec)

section \<open>Header initialization\<close>

lemma small_bit: "m < 2 ^ k \<Longrightarrow> bit (m :: nat) n \<Longrightarrow> n < k"
  by (metis bit_take_bit_iff take_bit_nat_eq_self_iff)

lemma bit_times2: "bit (m * 2 :: nat) n = (1 \<le> n \<and> bit m (n - 1))"
  using bit_push_bit_iff [of 1 m n] by (simp add: push_bit_eq_mult)

lemma less_16_cases:
  assumes "n < (16 :: nat)"
  obtains "n = 0" | "n = 1" | "n = 2" | "n = 3" | "n = 4" | "n = 5" | "n = 6" | "n = 7"
    | "n = 8" | "n = 9" | "n = 10" | "n = 11" | "n = 12" | "n = 13" | "n = 14" | "n = 15"
  using assms by (auto simp add: numeral_eq_Suc elim!: less_SucE)

lemma unat_less_exp:
  fixes w :: u16
  assumes "take_bit k w = w"
  shows "unat w < 2 ^ k"
proof -
  have "unat w = take_bit k (unat w)"
    using assms by (metis unsigned_take_bit_eq)
  then show ?thesis
    by (metis take_bit_nat_less_exp)
qed

lemma small_not_bit: "m < 2 ^ k \<Longrightarrow> k \<le> n \<Longrightarrow> bit (m :: nat) n = False"
  using small_bit [of m k n] by auto

lemma method_roundtrip:
  assumes c: "c < 4" and m: "m < 2 ^ 12"
  shows "drop_bit 2 (type_word c m AND 0x3e00) OR drop_bit 1 (type_word c m AND 0x00e0)
           OR (type_word c m AND 0x000f) = of_nat m"
proof (rule bit_word_eqI)
  fix n
  have c': "c < 2 ^ 2" using c by simp
  assume "n < LENGTH(16)"
  then have "n < 16" by simp
  then show "bit (drop_bit 2 (type_word c m AND 0x3e00) OR drop_bit 1 (type_word c m AND 0x00e0)
           OR (type_word c m AND 0x000f)) n = bit (of_nat m :: u16) n"
    by (cases rule: less_16_cases)
      (simp_all add: type_word_def bit_simps bit_times2 small_not_bit [OF c'] small_not_bit [OF m])
qed

lemma class_roundtrip:
  assumes c: "c < 4" and m: "m < 2 ^ 12"
  shows "drop_bit 7 (type_word c m AND 0x0100) OR drop_bit 4 (type_word c m AND 0x0010) = of_nat c"
proof (rule bit_word_eqI)
  fix n
  have c': "c < 2 ^ 2" using c by simp
  assume "n < LENGTH(16)"
  then have "n < 16" by simp
  then show "bit (drop_bit 7 (type_word c m AND 0x0100) OR drop_bit 4 (type_word c m AND 0x0010)) n
      = bit (of_nat c :: u16) n"
    by (cases rule: less_16_cases)
      (simp_all add: type_word_def bit_simps bit_times2 small_not_bit [OF c'] small_not_bit [OF m])
qed

lemma type_word_bound:
  assumes c: "c < 4" and m: "m < 2 ^ 12"
  shows "unat (type_word c m) < 2 ^ 14"
proof (rule unat_less_exp, rule bit_word_eqI)
  fix n
  have c': "c < 2 ^ 2" using c by simp
  assume "n < LENGTH(16)"
  then have "n < 16" by simp
  then show "bit (take_bit 14 (type_word c m)) n = bit (type_word c m) n"
    by (cases rule: less_16_cases)
      (simp_all add: type_word_def bit_simps bit_times2 small_not_bit [OF c'] small_not_bit [OF m])
qed

lemma stun_get_method_less: "stun_get_method req < 2 ^ 12"
  unfolding stun_get_method_def Let_def
proof (rule unat_less_exp, rule bit_word_eqI)
  fix n
  define t where "t = stun_getw req 0"
  assume "n < LENGTH(16)"
  then have "n < 16" by simp
  then show "bit (take_bit 12 (drop_bit 2 (stun_getw req 0 AND 0x3e00)
        OR drop_bit 1 (stun_getw req 0 AND 0x00e0) OR (stun_getw req 0 AND 0x000f))) n
     = bit (drop_bit 2 (stun_getw req 0 AND 0x3e00)
        OR drop_bit 1 (stun_getw req 0 AND 0x00e0) OR (stun_getw req 0 AND 0x000f)) n"
    unfolding t_def [symmetric]
    by (cases rule: less_16_cases) (simp_all add: bit_simps)
qed

lemma stun_set_type_Returns:
  assumes c: "c < 4" and m: "m < 2 ^ 12"
  shows "stun_set_type h c m =
     Returns (h(0 := of_nat (drop_bit 1 c OR (drop_bit 6 m AND 0x3e)),
                1 := of_nat ((push_bit 4 c AND 0x10) OR (push_bit 1 m AND 0xe0) OR (m AND 0x0f))))"
    (is "_ = Returns ?h")
proof -
  have t: "stun_getw ?h 0 = type_word c m"
    by (simp add: stun_getw_def type_word_def)
  have cu: "unat (of_nat c :: u16) = c" and mu: "unat (of_nat m :: u16) = m"
    using c m by (simp_all add: unat_of_nat)
  have "unat (stun_getw ?h 0) < 2 ^ 14"
    unfolding t by (rule type_word_bound [OF c m])
  moreover have "stun_get_class ?h = c"
    unfolding stun_get_class_def Let_def t class_roundtrip [OF c m] by (rule cu)
  moreover have "stun_get_method ?h = m"
    unfolding stun_get_method_def Let_def t method_roundtrip [OF c m] by (rule mu)
  ultimately show ?thesis
    using c m by (simp add: stun_set_type_def Let_def)
qed

lemma load_bytes_store_bytes:
  "length bs = n \<Longrightarrow> load_bytes (store_bytes m p bs) p n = bs"
  by (rule nth_equalityI) (simp_all add: load_bytes_def store_bytes_apply)


lemma stun_init_Returns:
  assumes c: "c < 4" and m: "m < 2 ^ 12"
  shows "\<exists>msg'. stun_init msg c m ident = Returns msg' \<and>
     stun_getw msg' 0 = type_word c m \<and>
     msg' 0 = of_nat (drop_bit 1 c OR (drop_bit 6 m AND 0x3e)) \<and>
     msg' 1 = of_nat ((push_bit 4 c AND 0x10) OR (push_bit 1 m AND 0xe0) OR (m AND 0x0f)) \<and>
     msg' 2 = 0 \<and> msg' 3 = 0 \<and> stun_length msg' = 0 \<and>
     load_bytes msg' 4 4 = [0x21, 0x12, 0xA4, 0x42] \<and>
     stun_get_class msg' = c \<and> stun_get_method msg' = m \<and>
     load_bytes msg' 8 (length (take 12 ident)) = take 12 ident \<and>
     (\<forall>i. 20 \<le> i \<longrightarrow> msg' i = msg i)"
proof -
  define h0 where "h0 = memcpy msg 0 [0, 0, 0, 0, 0x21, 0x12, 0xA4, 0x42] 8"
  define h where "h = h0(0 := of_nat (drop_bit 1 c OR (drop_bit 6 m AND 0x3e)),
      1 := of_nat ((push_bit 4 c AND 0x10) OR (push_bit 1 m AND 0xe0) OR (m AND 0x0f)))"
  define msg' where "msg' = memcpy h 8 ident 12"
  have run: "stun_init msg c m ident = Returns msg'"
    by (simp add: stun_init_def Let_def stun_set_type_Returns [OF c m] msg'_def h_def h0_def)
  have t: "stun_getw msg' 0 = type_word c m"
    by (simp add: stun_getw_def type_word_def msg'_def memcpy_def store_bytes_apply h_def)
  have cu: "unat (of_nat c :: u16) = c" and mu: "unat (of_nat m :: u16) = m"
    using c m by (simp_all add: unat_of_nat)
  have cls: "stun_get_class msg' = c"
    unfolding stun_get_class_def Let_def t class_roundtrip [OF c m] by (rule cu)
  have meth: "stun_get_method msg' = m"
    unfolding stun_get_method_def Let_def t method_roundtrip [OF c m] by (rule mu)
  have b: "msg' 0 = of_nat (drop_bit 1 c OR (drop_bit 6 m AND 0x3e))"
    "msg' 1 = of_nat ((push_bit 4 c AND 0x10) OR (push_bit 1 m AND 0xe0) OR (m AND 0x0f))"
    "msg' 2 = 0" "msg' 3 = 0"
    by (simp_all add: msg'_def h_def h0_def memcpy_def store_bytes_apply)
  have len: "stun_length msg' = 0"
    by (simp add: stun_length_def stun_getw_def b)
  have cookie: "load_bytes msg' 4 4 = [0x21, 0x12, 0xA4, 0x42]"
    by (simp add: load_bytes_def upt_rec msg'_def h_def h0_def memcpy_def store_bytes_apply)
  have ident: "load_bytes msg' 8 (length (take 12 ident)) = take 12 ident"
    unfolding msg'_def memcpy_def by (rule load_bytes_store_bytes) simp
  have frame: "\<forall>i. 20 \<le> i \<longrightarrow> msg' i = msg i"
    by (auto simp add: msg'_def h_def h0_def memcpy_def store_bytes_apply)
  show ?thesis
    using run t b len cookie cls meth ident frame by blast
qed

text \<open>
  C5.  For every method \<open>m\<close> from 0 to \<open>0x0FFF\<close>, \<open>stun_init_request\<close> returns
  (no assertion fails) a buffer whose bytes 4 to 7 are \<open>0x21, 0x12, 0xA4, 0x42\<close>,
  whose length field (bytes 2 and 3) is zero, and whose two type bytes are
  those of the bit layout for the class REQUEST and the method \<open>m\<close>, from
  which the class and the method are read back; bytes 8 to 19 are the
  identifier that the transaction-identifier source returned.
\<close>

theorem stun_init_request_header:
  assumes m: "m \<le> 0x0FFF"
  shows "\<exists>req'. stun_init_request e store req m
            = (Returns req', store\<lparr>counter := counter store + 1\<rparr>) \<and>
     load_bytes req' 4 4 = [0x21, 0x12, 0xA4, 0x42] \<and>
     load_bytes req' 2 2 = [0, 0] \<and> stun_length req' = 0 \<and>
     req' 0 = of_nat (drop_bit 1 STUN_REQUEST OR (drop_bit 6 m AND 0x3e)) \<and>
     req' 1 = of_nat ((push_bit 4 STUN_REQUEST AND 0x10) OR (push_bit 1 m AND 0xe0)
                      OR (m AND 0x0f)) \<and>
     stun_get_class req' = STUN_REQUEST \<and> stun_get_method req' = m \<and>
     load_bytes req' 8 12 = fst (stun_make_transid e store)"
proof -
  have c: "STUN_REQUEST < 4" and m': "m < 2 ^ 12"
    using m by (simp_all add: STUN_REQUEST_def)
  have len: "length (fst (stun_make_transid e store)) = 12"
    by (simp add: stun_make_transid_ident length_object_bytes)
  from stun_init_Returns [OF c m', of req "fst (stun_make_transid e store)"]
  obtain req' where run: "stun_init req STUN_REQUEST m (fst (stun_make_transid e store)) = Returns req'"
    and b: "req' 0 = of_nat (drop_bit 1 STUN_REQUEST OR (drop_bit 6 m AND 0x3e))"
      "req' 1 = of_nat ((push_bit 4 STUN_REQUEST AND 0x10) OR (push_bit 1 m AND 0xe0)
                      OR (m AND 0x0f))"
      "req' 2 = 0" "req' 3 = 0" "stun_length req' = 0"
    and cookie: "load_bytes req' 4 4 = [0x21, 0x12, 0xA4, 0x42]"
    and dec: "stun_get_class req' = STUN_REQUEST" "stun_get_method req' = m"
    and ident: "load_bytes req' 8 12 = fst (stun_make_transid e store)"
    by (auto simp add: len)
  have "stun_init_request e store req m = (Returns req', store\<lparr>counter := counter store + 1\<rparr>)"
    using run by (simp add: stun_init_request_def split_def) (simp add: stun_make_transid_def Let_def)
  moreover have "load_bytes req' 2 2 = [0, 0]"
    by (simp add: load_bytes_def upt_rec b)
  ultimately show ?thesis
    using b cookie dec ident by blast
qed

theorem stun_init_request_header_witness:
  "(1 :: nat) \<le> 0x0FFF \<and>
   (\<exists>req'. stun_init_request Little_endian initial_store (\<lambda>_. 0xFF) 1
              = (Returns req', \<lparr>counter = 1\<rparr>) \<and>
      load_bytes req' 4 4 = [0x21, 0x12, 0xA4, 0x42] \<and>
      load_bytes req' 2 2 = [0, 0] \<and>
      req' 0 = 0 \<and> req' 1 = 1 \<and>
      stun_get_class req' = STUN_REQUEST \<and> stun_get_method req' = 1)"
proof -
  have m: "(1 :: nat) \<le> 0x0FFF"
    by simp
  from stun_init_request_header [OF m, of Little_endian initial_store "\<lambda>_. 0xFF"]
  show ?thesis
    using m by (auto simp add: initial_store_def STUN_REQUEST_def)
qed

section \<open>The ERROR-CODE attribute\<close>

lemma stun_strerror_catalog: "stun_strerror code = reason_phrase code"
  by (simp add: stun_strerror_def stun_strerror_tab_def reason_phrase_def error_catalog_def
      STUN_TRY_ALTERNATE_def STUN_BAD_REQUEST_def STUN_UNAUTHORIZED_def
      STUN_UNKNOWN_ATTRIBUTE_def STUN_STALE_CREDENTIALS_def STUN_INTEGRITY_CHECK_FAILURE_def
      STUN_MISSING_USERNAME_def STUN_USE_TLS_def STUN_MISSING_REALM_def STUN_MISSING_NONCE_def
      STUN_UNKNOWN_USERNAME_def STUN_STALE_NONCE_def STUN_ROLE_CONFLICT_def
      STUN_SERVER_ERROR_def STUN_GLOBAL_FAILURE_def)

lemma div_quot_nonneg: "0 \<le> a \<Longrightarrow> div_quot a 100 = a div 100"
  by (cases "a = 0") (simp_all add: div_quot_def sgn_if)

lemma div_rem_nonneg: "0 \<le> a \<Longrightarrow> div_rem a 100 = a mod 100"
  by (simp add: div_rem_def div_quot_nonneg minus_mult_div_eq_mod)

lemma error_payload_bytes:
  fixes m :: buffer and p :: nat and q r :: u8 and bs :: "u8 list"
  defines "m' \<equiv> store_bytes ((store_bytes m p (replicate 2 0))(p + 2 := q, p + 3 := r)) (p + 4) bs"
  shows "load_bytes m' p (4 + length bs) = [0, 0, q, r] @ bs"
proof (rule nth_equalityI)
  show "length (load_bytes m' p (4 + length bs)) = length ([0, 0, q, r] @ bs)"
    by (simp add: length_load_bytes)
next
  fix i
  assume "i < length (load_bytes m' p (4 + length bs))"
  then have i: "i < 4 + length bs"
    by (simp add: length_load_bytes)
  consider "i = 0" | "i = 1" | "i = 2" | "i = 3" | "4 \<le> i"
    by linarith
  then have "m' (p + i) = ([0, 0, q, r] @ bs) ! i"
  proof cases
    case 5
    then obtain k where k: "i = 4 + k"
      using le_iff_add by blast
    have "([0, 0, q, r] @ bs) ! (length [0, 0, q, r] + k) = bs ! k"
      by (rule nth_append_length_plus)
    then have "([0, 0, q, r] @ bs) ! i = bs ! k"
      by (simp add: k)
    moreover have "m' (p + i) = bs ! k"
      using i by (simp add: k m'_def store_bytes_apply)
    ultimately show ?thesis
      by simp
  qed (simp_all add: m'_def store_bytes_apply)
  with i show "load_bytes m' p (4 + length bs) ! i = ([0, 0, q, r] @ bs) ! i"
    by (simp add: load_bytes_def)
qed

lemma stun_append_error_run:
  assumes pad: "stun_padding (unat (stun_length msg)) = 0"
    and maxmsg: "maxmsg \<le> 65552"
    and code: "0 \<le> code" "code < 800"
    and fits: "unat (stun_length msg) + 24 + (4 + length (reason_phrase code)) \<le> min msize maxmsg"
  shows "\<exists>msg'. stun_append_error maxmsg msg msize code = Returns (Success, msg') \<and>
    stun_getw msg' (20 + unat (stun_length msg)) = STUN_ERROR_CODE \<and>
    stun_getw msg' (22 + unat (stun_length msg)) = of_nat (4 + length (reason_phrase code)) \<and>
    load_bytes msg' (24 + unat (stun_length msg)) (4 + length (reason_phrase code))
      = [0, 0, of_int (code div 100), of_int (code mod 100)] @ string_bytes (reason_phrase code)"
proof -
  define L where "L = unat (stun_length msg)"
  define str where "str = reason_phrase code"
  define n where "n = 4 + length str"
  from stun_append_Some [OF pad fits maxmsg, of STUN_ERROR_CODE]
  obtain msg1 where run: "stun_append maxmsg msg msize STUN_ERROR_CODE n = Returns (msg1, Some (24 + L))"
    and t: "stun_getw msg1 (20 + L) = STUN_ERROR_CODE"
    and l: "stun_getw msg1 (22 + L) = of_nat n"
    unfolding L_def n_def str_def by blast
  define m' where "m' = store_bytes ((store_bytes msg1 (24 + L) (replicate 2 0))
      (24 + L + 2 := of_int (code div 100), 24 + L + 3 := of_int (code mod 100)))
      (24 + L + 4) (string_bytes str)"
  have ok: "stun_append_error maxmsg msg msize code = Returns (Success, m')"
    using div_quot_100_le [OF code(2)]
    by (simp add: stun_append_error_def Let_def stun_strerror_catalog strlen_def run
        memset_def memcpy_def m'_def div_quot_nonneg [OF code(1)] div_rem_nonneg [OF code(1)]
        string_bytes_def flip: str_def n_def)
  have "stun_getw m' (20 + L) = stun_getw msg1 (20 + L)"
    by (rule stun_getw_cong) (simp_all add: m'_def store_bytes_apply)
  moreover have "stun_getw m' (22 + L) = stun_getw msg1 (22 + L)"
    by (rule stun_getw_cong) (simp_all add: m'_def store_bytes_apply)
  moreover have "load_bytes m' (24 + L) (4 + length (string_bytes str))
      = [0, 0, of_int (code div 100), of_int (code mod 100)] @ string_bytes str"
    unfolding m'_def by (rule error_payload_bytes)
  ultimately show ?thesis
    using t l ok by (simp add: string_bytes_def flip: L_def str_def n_def)
qed

lemma stun_append_error_fits:
  assumes pad: "stun_padding (unat (stun_length msg)) = 0"
    and ok: "stun_append_error maxmsg msg msize code = Returns (Success, msg')"
  shows "unat (stun_length msg) + 24 + (4 + length (reason_phrase code)) \<le> min msize maxmsg"
proof (rule ccontr)
  assume "\<not> ?thesis"
  then have "min msize maxmsg < unat (stun_length msg) + 24 + (4 + length (reason_phrase code))"
    by (simp only: not_le)
  then have "stun_append maxmsg msg msize STUN_ERROR_CODE (4 + length (reason_phrase code))
      = Returns (msg, None)"
    by (rule stun_append_None [OF pad
          error_no_wrap [of msg code, unfolded stun_strerror_catalog strlen_def]])
  with ok show False
    by (simp add: stun_append_error_def Let_def stun_strerror_catalog strlen_def)
qed

lemma reason_phrase_401: "reason_phrase 401 = ''Authorization required''"
  by (simp add: reason_phrase_def error_catalog_def)

lemma stun_init_error_401:
  assumes maxmsg: "maxmsg \<le> 65552"
    and fits: "50 \<le> min msize maxmsg"
  shows "\<exists>ans'. stun_init_error maxmsg ans msize req 401 = Returns (Success, ans') \<and>
     load_bytes ans' 24 26 = [0, 0, 4, 1] @ string_bytes ''Authorization required''"
proof -
  have c: "STUN_ERROR < 4"
    by (simp add: STUN_ERROR_def)
  from stun_init_Returns [OF c stun_get_method_less, of ans req "stun_id req"]
  obtain ans1 where init: "stun_init ans STUN_ERROR (stun_get_method req) (stun_id req) = Returns ans1"
    and len: "stun_length ans1 = 0"
    by blast
  have pad: "stun_padding (unat (stun_length ans1)) = 0"
    by (simp add: len stun_padding_def)
  have room: "unat (stun_length ans1) + 24 + (4 + length (reason_phrase 401)) \<le> min msize maxmsg"
    using fits by (simp add: len reason_phrase_401)
  from stun_append_error_run [OF pad maxmsg _ _ room]
  obtain ans' where "stun_append_error maxmsg ans1 msize 401 = Returns (Success, ans')"
    and "load_bytes ans' (24 + unat (stun_length ans1)) (4 + length (reason_phrase 401))
      = [0, 0, of_int (401 div 100), of_int (401 mod 100)] @ string_bytes (reason_phrase 401)"
    by auto
  then show ?thesis
    by (simp add: stun_init_error_def init len reason_phrase_401)
qed

text \<open>
  C6.  The reason phrase that \<open>stun_strerror\<close> finds is the phrase of the
  catalog, or "Unknown error" for a code that the catalog does not have.
  For every error code from 0 to 799, when \<open>stun_append_error\<close> succeeds on a
  message whose length field is a multiple of 4, the attribute it appended
  has the type ERROR-CODE, the length of 4 plus that of the phrase, and as
  payload two zero bytes, the byte \<open>code div 100\<close>, the byte \<open>code mod 100\<close> and
  the bytes of the phrase with no NUL after them.  In particular
  \<open>stun_init_error\<close> with the code 401, in a buffer with room for 50 bytes,
  succeeds with the payload \<open>00 00 04 01\<close> followed by "Authorization
  required".
\<close>

theorem error_code_payload:
  assumes maxmsg: "maxmsg \<le> 65552"
  shows "stun_strerror code = reason_phrase code \<and>
    (stun_padding (unat (stun_length msg)) = 0 \<and> 0 \<le> code \<and> code < 800 \<and>
     stun_append_error maxmsg msg msize code = Returns (Success, msg') \<longrightarrow>
       stun_getw msg' (20 + unat (stun_length msg)) = STUN_ERROR_CODE \<and>
       stun_getw msg' (22 + unat (stun_length msg)) = of_nat (4 + length (reason_phrase code)) \<and>
       load_bytes msg' (24 + unat (stun_length msg)) (4 + length (reason_phrase code))
         = [0, 0, of_int (code div 100), of_int (code mod 100)]
           @ string_bytes (reason_phrase code)) \<and>
    (50 \<le> min msize maxmsg \<longrightarrow>
       (\<exists>ans'. stun_init_error maxmsg ans msize req 401 = Returns (Success, ans') \<and>
          load_bytes ans' 24 26 = [0, 0, 4, 1] @ string_bytes ''Authorization required''))"
proof -
  have "stun_getw msg' (20 + unat (stun_length msg)) = STUN_ERROR_CODE \<and>
       stun_getw msg' (22 + unat (stun_length msg)) = of_nat (4 + length (reason_phrase code)) \<and>
       load_bytes msg' (24 + unat (stun_length msg)) (4 + length (reason_phrase code))
         = [0, 0, of_int (code div 100), of_int (code mod 100)]
           @ string_bytes (reason_phrase code)"
    if pad: "stun_padding (unat (stun_length msg)) = 0" and code: "0 \<le> code" "code < 800"
      and ok: "stun_append_error maxmsg msg msize code = Returns (Success, msg')"
    using stun_append_error_run [OF pad maxmsg code stun_append_error_fits [OF pad ok]] ok
    by auto
  then show ?thesis
    using stun_strerror_catalog stun_init_error_401 [OF maxmsg] by blast
qed

theorem error_code_payload_witness:
  "(65552 :: nat) \<le> 65552 \<and> (50 :: nat) \<le> min 100 65552 \<and>
   (\<exists>ans'. stun_init_error 65552 (\<lambda>_. 0) 100 (\<lambda>_. 0) 401 = Returns (Success, ans') \<and>
      load_bytes ans' 24 26 = [0, 0, 4, 1] @ string_bytes ''Authorization required'' \<and>
      stun_padding (unat (stun_length ans')) = 0 \<and> (0 :: int) \<le> 420 \<and> (420 :: int) < 800 \<and>
      (\<exists>msg'. stun_append_error 65552 ans' 100 420 = Returns (Success, msg') \<and>
         load_bytes msg' 56 21 = [0, 0, 4, 20] @ string_bytes ''Unknown attribute''))"
proof -
  have maxmsg: "(65552 :: nat) \<le> 65552" and room: "(50 :: nat) \<le> min 100 65552"
    by simp_all
  note main = error_code_payload [OF maxmsg]
  from main [of _ _ 100] room
  obtain ans' where init: "stun_init_error 65552 (\<lambda>_. 0) 100 (\<lambda>_. 0) 401 = Returns (Success, ans')"
    and payload: "load_bytes ans' 24 26 = [0, 0, 4, 1] @ string_bytes ''Authorization required''"
    by blast
  have c: "STUN_ERROR < 4"
    by (simp add: STUN_ERROR_def)
  from stun_init_Returns [OF c stun_get_method_less, of "\<lambda>_. 0" "\<lambda>_. 0" "stun_id (\<lambda>_. 0)"]
  obtain ans1 where ans1: "stun_init (\<lambda>_. 0) STUN_ERROR (stun_get_method (\<lambda>_. 0)) (stun_id (\<lambda>_. 0))
      = Returns ans1"
    and len1: "stun_length ans1 = 0"
    by blast
  have pad1: "stun_padding (unat (stun_length ans1)) = 0"
    by (simp add: len1 stun_padding_def)
  have code: "(401 :: int) < 800"
    by simp
  from stun_append_error_effect [OF pad1 maxmsg code, of 100] init
  have len: "unat (stun_length ans') = 32"
    by (simp add: stun_init_error_def ans1 append_effect_def len1 stun_strerror_catalog
        reason_phrase_401 strlen_def stun_padding_def)
  have pad: "stun_padding (unat (stun_length ans')) = 0"
    by (simp add: len stun_padding_def)
  have phrase: "reason_phrase 420 = ''Unknown attribute''"
    by (simp add: reason_phrase_def error_catalog_def)
  have code': "(0 :: int) \<le> 420" "(420 :: int) < 800"
    by simp_all
  have fits: "unat (stun_length ans') + 24 + (4 + length (reason_phrase 420)) \<le> min 100 (65552 :: nat)"
    by (simp add: len phrase)
  from stun_append_error_run [OF pad maxmsg code' fits]
  obtain msg' where run: "stun_append_error 65552 ans' 100 420 = Returns (Success, msg')"
    by blast
  from main [of 420 ans' 100 msg'] pad code' run
  have "load_bytes msg' 56 21 = [0, 0, 4, 20] @ string_bytes ''Unknown attribute''"
    by (simp add: len phrase)
  with maxmsg room init payload pad code' run show ?thesis
    by blast
qed

section \<open>Finishing a message\<close>






















end
